theory Spec2Isabelle
  imports Complex_Main
begin

section \<open>Strings and JSON values\<close>

text \<open>
  A JavaScript string is modelled by the bytes of its UTF-8 encoding, so \<open>string\<close> is the type
  of every text of the program. The three symbols the messages use are written as their bytes.
\<close>

definition cross_mark :: string where
  "cross_mark = [CHR 0xE2, CHR 0x9D, CHR 0x8C]"

definition check_mark :: string where
  "check_mark = [CHR 0xE2, CHR 0x9C, CHR 0x85]"

definition warning_sign :: string where
  "warning_sign = [CHR 0xE2, CHR 0x9A, CHR 0xA0, CHR 0xEF, CHR 0xB8, CHR 0x8F]"

definition newline :: string where
  "newline = [CHR 0x0A]"

text \<open>
  The arguments of a tool call are \<open>unknown\<close>: a JSON value, or \<open>undefined\<close> when the request
  carries none. A number is a rational (every finite double is one); an object is the list of its
  entries, read with \<open>field\<close>.
\<close>

datatype json =
    JUndefined
  | JNull
  | JBool bool
  | JNum rat
  | JStr string
  | JArr "json list"
  | JObj "(string \<times> json) list"

definition field :: "(string \<times> json) list \<Rightarrow> string \<Rightarrow> json" where
  "field kvs k = (case map_of kvs k of None \<Rightarrow> JUndefined | Some v \<Rightarrow> v)"

text \<open>\<open>join\<close> is \<open>Array.prototype.join\<close> on strings.\<close>

fun join :: "string \<Rightarrow> string list \<Rightarrow> string" where
  "join sep [] = []"
| "join sep [x] = x"
| "join sep (x # y # ys) = x @ sep @ join sep (y # ys)"

text \<open>Decimal rendering of a natural number, as \<open>toString\<close> gives it.\<close>

definition digit_char :: "nat \<Rightarrow> char" where
  "digit_char d = ''0123456789'' ! d"

fun show_nat :: "nat \<Rightarrow> string" where
  "show_nat n = (if n < 10 then [digit_char n] else show_nat (n div 10) @ [digit_char (n mod 10)])"

declare show_nat.simps [simp del]

section \<open>Response envelopes (utils.ts)\<close>

text \<open>
  A \<open>ToolResponse\<close> holds its text segments and an optional \<open>isError\<close>:
  \<open>createSuccessResponse\<close> builds an object without that key (\<open>None\<close>).
\<close>

record tool_response =
  content :: "string list"
  isError :: "bool option"

definition createErrorResponse :: "string \<Rightarrow> tool_response" where
  "createErrorResponse message = \<lparr>content = [message], isError = Some True\<rparr>"

definition createSuccessResponse :: "string \<Rightarrow> tool_response" where
  "createSuccessResponse txt = \<lparr>content = [txt], isError = None\<rparr>"

definition NOT_AUTHENTICATED_RESPONSE :: tool_response where
  "NOT_AUTHENTICATED_RESPONSE =
     createErrorResponse (cross_mark @ '' Not authenticated. Please use the 'authenticate' tool first.'')"

text \<open>
  A thrown value is an \<open>Error\<close> object with its message, or any other value with the text
  \<open>String(error)\<close> gives for it. \<open>error_message\<close> is the expression
  \<open>error instanceof Error ? error.message : String(error)\<close>.
\<close>

datatype thrown = ErrorObj string | NonError string

fun error_message :: "thrown \<Rightarrow> string" where
  "error_message (ErrorObj m) = m"
| "error_message (NonError s) = s"

text \<open>
  An awaited call returns, throws, or never settles (the interactive sign-in waits for its
  callback without a timeout, a network request has none either).
\<close>

datatype 'a completion = Returns 'a | Raises thrown | Pending

section \<open>The validator (schemas.ts)\<close>

text \<open>
  The schemas are built with the zod library from a handful of combinators. \<open>ztype\<close> and
  \<open>zfield\<close> describe exactly the forms schemas.ts writes, and \<open>safeParse\<close> is the library's
  parse on them: an object schema reads each declared key, every check of a field adds its issue
  (checks do not stop at the first failure), unknown keys are dropped, and the parse succeeds
  when no issue was raised. The pattern the library uses for an e-mail address depends on its
  version and is the parameter \<open>email_ok\<close>.
\<close>

datatype ztype =
    ZNumber int int         \<comment> \<open>\<open>z.number().int().min(lo).max(hi)\<close>\<close>
  | ZString "string option" \<comment> \<open>\<open>z.string()\<close>, or \<open>z.string().min(1, message)\<close>\<close>
  | ZEmail string           \<comment> \<open>\<open>z.string().email(message)\<close>\<close>
  | ZBoolean                \<comment> \<open>\<open>z.boolean()\<close>\<close>
  | ZArray ztype            \<comment> \<open>\<open>z.array(item)\<close>\<close>

datatype zfield =
    Req ztype               \<comment> \<open>a required key\<close>
  | Opt ztype               \<comment> \<open>\<open>.optional()\<close>\<close>
  | Dflt ztype json         \<comment> \<open>\<open>.optional().default(value)\<close>\<close>

type_synonym zschema = "(string \<times> zfield) list"

type_synonym issue = "string list \<times> string"

fun received :: "json \<Rightarrow> string" where
  "received JUndefined = ''undefined''"
| "received JNull = ''null''"
| "received (JBool _) = ''boolean''"
| "received (JNum _) = ''number''"
| "received (JStr _) = ''string''"
| "received (JArr _) = ''array''"
| "received (JObj _) = ''object''"

definition invalid_type :: "string \<Rightarrow> json \<Rightarrow> string" where
  "invalid_type expected v =
     (if v = JUndefined then ''Required''
      else ''Expected '' @ expected @ '', received '' @ received v)"

definition show_int :: "int \<Rightarrow> string" where
  "show_int i = (if i < 0 then ''-'' @ show_nat (nat (- i)) else show_nat (nat i))"

definition is_integer :: "rat \<Rightarrow> bool" where
  "is_integer x = (of_int \<lfloor>x\<rfloor> = x)"

fun parse_type :: "(string \<Rightarrow> bool) \<Rightarrow> ztype \<Rightarrow> string list \<Rightarrow> json \<Rightarrow> issue list" where
  "parse_type em (ZNumber lo hi) p v =
     (case v of
        JNum x \<Rightarrow>
          (if is_integer x then [] else [(p, ''Expected integer, received float'')]) @
          (if x < of_int lo
           then [(p, ''Number must be greater than or equal to '' @ show_int lo)] else []) @
          (if of_int hi < x
           then [(p, ''Number must be less than or equal to '' @ show_int hi)] else [])
      | _ \<Rightarrow> [(p, invalid_type ''number'' v)])"
| "parse_type em (ZString m) p v =
     (case v of
        JStr s \<Rightarrow> (case m of None \<Rightarrow> [] | Some msg \<Rightarrow> if length s < 1 then [(p, msg)] else [])
      | _ \<Rightarrow> [(p, invalid_type ''string'' v)])"
| "parse_type em (ZEmail msg) p v =
     (case v of
        JStr s \<Rightarrow> if em s then [] else [(p, msg)]
      | _ \<Rightarrow> [(p, invalid_type ''string'' v)])"
| "parse_type em ZBoolean p v =
     (case v of JBool _ \<Rightarrow> [] | _ \<Rightarrow> [(p, invalid_type ''boolean'' v)])"
| "parse_type em (ZArray t) p v =
     (case v of
        JArr vs \<Rightarrow> concat (map (\<lambda>(i, x). parse_type em t (p @ [show_nat i]) x) (zip [0..<length vs] vs))
      | _ \<Rightarrow> [(p, invalid_type ''array'' v)])"

fun parse_field :: "(string \<Rightarrow> bool) \<Rightarrow> zfield \<Rightarrow> string list \<Rightarrow> json \<Rightarrow> issue list" where
  "parse_field em (Req t) p v = parse_type em t p v"
| "parse_field em (Opt t) p v = (if v = JUndefined then [] else parse_type em t p v)"
| "parse_field em (Dflt t d) p v = parse_type em t p (if v = JUndefined then d else v)"

fun output_field :: "zfield \<Rightarrow> json \<Rightarrow> json" where
  "output_field (Dflt t d) v = (if v = JUndefined then d else v)"
| "output_field _ v = v"

definition object_issues :: "(string \<Rightarrow> bool) \<Rightarrow> zschema \<Rightarrow> (string \<times> json) list \<Rightarrow> issue list" where
  "object_issues em schema kvs =
     concat (map (\<lambda>(k, fld). parse_field em fld [k] (field kvs k)) schema)"

definition object_output :: "zschema \<Rightarrow> (string \<times> json) list \<Rightarrow> (string \<times> json) list" where
  "object_output schema kvs =
     filter (\<lambda>(k, v). v \<noteq> JUndefined) (map (\<lambda>(k, fld). (k, output_field fld (field kvs k))) schema)"

definition safeParse :: "(string \<Rightarrow> bool) \<Rightarrow> zschema \<Rightarrow> json \<Rightarrow> issue list + json" where
  "safeParse em schema input =
     (case input of
        JObj kvs \<Rightarrow>
          (if object_issues em schema kvs = [] then Inr (JObj (object_output schema kvs))
           else Inl (object_issues em schema kvs))
      | _ \<Rightarrow> Inl [([], invalid_type ''object'' input)])"

definition format_issue :: "issue \<Rightarrow> string" where
  "format_issue e = join ''.'' (fst e) @ '': '' @ snd e"

definition validateInput :: "(string \<Rightarrow> bool) \<Rightarrow> zschema \<Rightarrow> json \<Rightarrow> thrown + json" where
  "validateInput em schema input =
     (case safeParse em schema input of
        Inl errors \<Rightarrow> Inl (ErrorObj (''Invalid input: '' @ join '', '' (map format_issue errors)))
      | Inr data \<Rightarrow> Inr data)"

definition limit_field :: "int \<Rightarrow> string \<times> zfield" where
  "limit_field hi = (''limit'', Dflt (ZNumber 1 hi) (JNum 10))"

definition ListConferencesSchema :: zschema where
  "ListConferencesSchema = [limit_field 100]"

definition GetConferenceSchema :: zschema where
  "GetConferenceSchema = [(''name'', Req (ZString (Some ''Conference name is required'')))]"

definition ConferenceNameSchema :: zschema where
  "ConferenceNameSchema = [(''conference_name'', Req (ZString (Some ''Conference name is required'')))]"

definition TranscriptNameSchema :: zschema where
  "TranscriptNameSchema = [(''transcript_name'', Req (ZString (Some ''Transcript name is required'')))]"

definition ListMeetingsSchema :: zschema where
  "ListMeetingsSchema = [limit_field 100]"

definition ListEmailsSchema :: zschema where
  "ListEmailsSchema = [limit_field 50]"

definition SearchEmailsSchema :: zschema where
  "SearchEmailsSchema =
     [(''query'', Req (ZString (Some ''Search query is required''))), limit_field 50]"

definition GetEmailSchema :: zschema where
  "GetEmailSchema = [(''message_id'', Req (ZString (Some ''Message ID is required'')))]"

definition GetThreadSchema :: zschema where
  "GetThreadSchema = [(''thread_id'', Req (ZString (Some ''Thread ID is required'')))]"

definition SendEmailSchema :: zschema where
  "SendEmailSchema =
     [(''to'', Req (ZEmail ''Valid email address required'')),
      (''subject'', Req (ZString (Some ''Subject is required''))),
      (''body'', Req (ZString (Some ''Email body is required''))),
      (''cc'', Opt (ZString None)),
      (''bcc'', Opt (ZString None))]"

definition TrashEmailSchema :: zschema where
  "TrashEmailSchema = [(''message_id'', Req (ZString (Some ''Message ID is required'')))]"

definition MarkEmailSchema :: zschema where
  "MarkEmailSchema = [(''message_id'', Req (ZString (Some ''Message ID is required'')))]"

definition ListDocsSchema :: zschema where
  "ListDocsSchema = [limit_field 50]"

definition SearchDocsSchema :: zschema where
  "SearchDocsSchema =
     [(''query'', Req (ZString (Some ''Search query is required''))), limit_field 50]"

definition GetDocSchema :: zschema where
  "GetDocSchema = [(''document_id'', Req (ZString (Some ''Document ID is required'')))]"

definition CreateDocSchema :: zschema where
  "CreateDocSchema =
     [(''title'', Req (ZString (Some ''Document title is required''))),
      (''content'', Opt (ZString None))]"

definition AppendToDocSchema :: zschema where
  "AppendToDocSchema =
     [(''document_id'', Req (ZString (Some ''Document ID is required''))),
      (''text'', Req (ZString (Some ''Text to append is required'')))]"

definition ReplaceInDocSchema :: zschema where
  "ReplaceInDocSchema =
     [(''document_id'', Req (ZString (Some ''Document ID is required''))),
      (''search_text'', Req (ZString (Some ''Search text is required''))),
      (''replace_text'', Req (ZString None)),
      (''match_case'', Dflt ZBoolean (JBool False))]"

definition CreateCalendarEventSchema :: zschema where
  "CreateCalendarEventSchema =
     [(''summary'', Req (ZString (Some ''Event title is required''))),
      (''description'', Opt (ZString None)),
      (''start_time'', Req (ZString (Some
         ''Start time is required (e.g., '2024-01-30 14:00' or ISO format)''))),
      (''end_time'', Opt (ZString None)),
      (''duration_minutes'', Dflt (ZNumber 5 480) (JNum 60)),
      (''attendees'', Opt (ZArray (ZEmail ''Invalid email''))),
      (''location'', Opt (ZString None)),
      (''timezone'', Dflt (ZString None) (JStr ''Asia/Kolkata'')),
      (''add_meet_link'', Dflt ZBoolean (JBool True))]"

section \<open>Authentication (auth.ts)\<close>

text \<open>
  The two files the module reads. The credentials file is absent, is not JSON (\<open>JSON.parse\<close>
  throws a \<open>SyntaxError\<close> with the given message), has \<open>type = "service_account"\<close> (with the
  text its \<open>client_email\<close> renders to), or is taken as an OAuth client file: an object (which
  may lack both the \<open>installed\<close> and the \<open>web\<close> key), or JSON that is no object, on which the
  \<open>in\<close> operator throws a \<open>TypeError\<close> with the given message. The token file is absent,
  yields no token (it is not JSON, or is \<open>null\<close>), holds a saved token, or holds JSON that
  \<open>google.auth.fromJSON\<close> refuses with the given message.
\<close>

datatype credentials_file =
    NoCredentials
  | NotJson string
  | ServiceAccountFile string
  | OAuthFile bool
  | NotAnObject string

datatype token_file = NoToken | BadToken | SavedToken | RejectedToken string

record files =
  credentials :: credentials_file
  token :: token_file

text \<open>The credential handle \<open>authenticate\<close> returns.\<close>

datatype google_auth = ServiceAccountAuth string | SavedTokenAuth | OAuth2ClientAuth

text \<open>
  The interactive flow prints the authorisation address and waits for the callback on the local
  port: the code is exchanged and the token saved (or the write fails, which is only logged),
  the exchange throws, or no callback with a code ever arrives.
\<close>

datatype flow_outcome = Authorized bool | ExchangeFailed thrown | NoCallback

text \<open>
  What lies outside the program: the e-mail pattern of the validation library, the configured
  path of the credentials file, the outcome of the interactive flow, and the service clients.
  \<open>service_op name client params\<close> stands for the operation of the client that the handler of
  tool \<open>name\<close> calls with the validated \<open>params\<close>, followed by the handler's formatting of the
  result: it yields the text of the success response, throws, or never settles.
\<close>

record external =
  email_ok :: "string \<Rightarrow> bool"
  credentialsPath :: string
  interactive_flow :: flow_outcome
  service_op :: "string \<Rightarrow> google_auth \<Rightarrow> json \<Rightarrow> string completion"

definition right_arrow :: string where
  "right_arrow = [CHR 0xE2, CHR 0x86, CHR 0x92]"

definition credentials_not_found :: "string \<Rightarrow> string" where
  "credentials_not_found path =
     ''credentials.json not found at '' @ path @ newline @ newline @
     ''To get credentials:'' @ newline @
     ''1. Go to https://console.cloud.google.com/'' @ newline @
     ''2. Create a project and enable Google Meet API'' @ newline @
     ''3. Go to APIs & Services '' @ right_arrow @ '' Credentials'' @ newline @
     ''4. Create either:'' @ newline @
     ''   - Service Account (recommended) - download JSON key'' @ newline @
     ''   - OAuth client ID (Desktop app) - download JSON'' @ newline @
     ''5. Save the file as 'credentials.json' in the project root''"

text \<open>\<open>loadSavedToken\<close> returns the parsed token, or \<open>null\<close> (\<open>None\<close>).\<close>

definition loadSavedToken :: "files \<Rightarrow> token_file option" where
  "loadSavedToken f =
     (case token f of NoToken \<Rightarrow> None | BadToken \<Rightarrow> None | savedToken \<Rightarrow> Some savedToken)"

text \<open>\<open>google.auth.fromJSON\<close> on a loaded token.\<close>

definition fromJSON :: "token_file \<Rightarrow> google_auth completion" where
  "fromJSON savedToken =
     (case savedToken of RejectedToken m \<Rightarrow> Raises (ErrorObj m) | _ \<Rightarrow> Returns SavedTokenAuth)"

text \<open>
  \<open>"installed" in credentials ? credentials.installed : credentials.web\<close>: whether a key was
  found, or the message of the \<open>TypeError\<close> on credentials that are no object.
\<close>

definition oauth_key :: "credentials_file \<Rightarrow> string + bool" where
  "oauth_key c =
     (case c of OAuthFile has_key \<Rightarrow> Inr has_key | NotAnObject m \<Rightarrow> Inl m | _ \<Rightarrow> Inr False)"

definition authenticateOAuth ::
  "external \<Rightarrow> credentials_file \<Rightarrow> files \<Rightarrow> google_auth completion \<times> files" where
  "authenticateOAuth ext c f =
     (case loadSavedToken f of
        Some savedToken \<Rightarrow> (fromJSON savedToken, f)
      | None \<Rightarrow>
          (case oauth_key c of
             Inl m \<Rightarrow> (Raises (ErrorObj m), f)
           | Inr has_key \<Rightarrow>
               if \<not> has_key then (Raises (ErrorObj ''Invalid OAuth credentials format''), f)
               else (case interactive_flow ext of
                       Authorized saved \<Rightarrow>
                         (Returns OAuth2ClientAuth, if saved then f\<lparr>token := SavedToken\<rparr> else f)
                     | ExchangeFailed err \<Rightarrow> (Raises (ErrorObj (error_message err)), f)
                     | NoCallback \<Rightarrow> (Pending, f))))"

definition authenticate :: "external \<Rightarrow> files \<Rightarrow> google_auth completion \<times> files" where
  "authenticate ext f =
     (case credentials f of
        NoCredentials \<Rightarrow> (Raises (ErrorObj (credentials_not_found (credentialsPath ext))), f)
      | NotJson m \<Rightarrow> (Raises (ErrorObj m), f)
      | ServiceAccountFile email \<Rightarrow> (Returns (ServiceAccountAuth email), f)
      | OAuthFile _ \<Rightarrow> authenticateOAuth ext (credentials f) f
      | NotAnObject _ \<Rightarrow> authenticateOAuth ext (credentials f) f)"

definition isAuthenticated :: "files \<Rightarrow> bool" where
  "isAuthenticated f =
     (case credentials f of
        NoCredentials \<Rightarrow> False
      | NotJson _ \<Rightarrow> False
      | ServiceAccountFile _ \<Rightarrow> True
      | OAuthFile _ \<Rightarrow> token f \<noteq> NoToken
      | NotAnObject _ \<Rightarrow> token f \<noteq> NoToken)"

definition getAuthStatus :: "files \<Rightarrow> string" where
  "getAuthStatus f =
     (case credentials f of
        NoCredentials \<Rightarrow>
          cross_mark @ '' No credentials found. Please add credentials.json to the project root.''
      | NotJson _ \<Rightarrow> cross_mark @ '' Error reading credentials file.''
      | ServiceAccountFile email \<Rightarrow> check_mark @ '' Service Account configured: '' @ email
      | _ \<Rightarrow>
          (if token f \<noteq> NoToken then check_mark @ '' Authenticated with Google (OAuth)''
           else warning_sign @
             '' OAuth credentials found but not authenticated. Use the 'authenticate' tool to sign in.''))"

section \<open>The dispatcher (tools/handlers.ts, index.ts)\<close>

text \<open>
  The module's four variables, with the files they depend on. A service client is stateless
  beyond the credential it was built from, so a cached client is that credential. \<open>invoked\<close>
  records, in order, the client operations that were called (tool name and validated
  parameters); the program keeps no such list, it is what the outside world has seen.
\<close>

record server =
  authInstance :: "google_auth option"
  meetService :: "google_auth option"
  gmailService :: "google_auth option"
  docsService :: "google_auth option"
  disk :: files
  invoked :: "(string \<times> json) list"

datatype service_kind = Meet | Gmail | Docs

fun cached :: "service_kind \<Rightarrow> server \<Rightarrow> google_auth option" where
  "cached Meet s = meetService s"
| "cached Gmail s = gmailService s"
| "cached Docs s = docsService s"

fun cache :: "service_kind \<Rightarrow> google_auth \<Rightarrow> server \<Rightarrow> server" where
  "cache Meet a s = s\<lparr>meetService := Some a\<rparr>"
| "cache Gmail a s = s\<lparr>gmailService := Some a\<rparr>"
| "cache Docs a s = s\<lparr>docsService := Some a\<rparr>"

definition ensureAuth :: "external \<Rightarrow> server \<Rightarrow> google_auth completion \<times> server" where
  "ensureAuth ext s =
     (case authInstance s of
        Some a \<Rightarrow> (Returns a, s)
      | None \<Rightarrow>
          (if isAuthenticated (disk s) then
             (case authenticate ext (disk s) of
                (Returns a, f) \<Rightarrow> (Returns a, s\<lparr>authInstance := Some a, disk := f\<rparr>)
              | (Raises e, f) \<Rightarrow> (Raises e, s\<lparr>disk := f\<rparr>)
              | (Pending, f) \<Rightarrow> (Pending, s\<lparr>disk := f\<rparr>))
           else (Raises (ErrorObj ''NOT_AUTHENTICATED''), s)))"

text \<open>\<open>getMeetService\<close>, \<open>getGmailService\<close> and \<open>getDocsService\<close>, by the kind of client.\<close>

definition getService :: "external \<Rightarrow> service_kind \<Rightarrow> server \<Rightarrow> google_auth completion \<times> server" where
  "getService ext kind s =
     (case cached kind s of
        Some c \<Rightarrow> (Returns c, s)
      | None \<Rightarrow>
          (case ensureAuth ext s of
             (Returns a, s') \<Rightarrow> (Returns a, cache kind a s')
           | (Raises e, s') \<Rightarrow> (Raises e, s')
           | (Pending, s') \<Rightarrow> (Pending, s')))"

text \<open>The \<open>catch\<close> clause shared by \<open>withMeetAuth\<close>, \<open>withGmailAuth\<close> and \<open>withDocsAuth\<close>.\<close>

definition on_error :: "thrown \<Rightarrow> server \<Rightarrow> tool_response completion \<times> server" where
  "on_error e s =
     (if e = ErrorObj ''NOT_AUTHENTICATED'' then (Returns NOT_AUTHENTICATED_RESPONSE, s)
      else (Raises e, s))"

definition withAuth ::
  "external \<Rightarrow> service_kind \<Rightarrow> (google_auth \<Rightarrow> server \<Rightarrow> tool_response completion \<times> server) \<Rightarrow>
   server \<Rightarrow> tool_response completion \<times> server" where
  "withAuth ext kind handler s =
     (case getService ext kind s of
        (Returns service, s') \<Rightarrow>
          (case handler service s' of
             (Raises e, s'') \<Rightarrow> on_error e s''
           | r \<Rightarrow> r)
      | (Raises e, s') \<Rightarrow> on_error e s'
      | (Pending, s') \<Rightarrow> (Pending, s'))"

text \<open>
  Every handler of a service tool has one shape: validate the arguments with the tool's schema
  (the three tools without arguments skip this), call the client, and wrap the formatted result
  with \<open>createSuccessResponse\<close>.
\<close>

definition call_service ::
  "external \<Rightarrow> string \<Rightarrow> json \<Rightarrow> google_auth \<Rightarrow> server \<Rightarrow> tool_response completion \<times> server" where
  "call_service ext name params service s =
     (case service_op ext name service params of
        Returns txt \<Rightarrow> Returns (createSuccessResponse txt)
      | Raises e \<Rightarrow> Raises e
      | Pending \<Rightarrow> Pending,
      s\<lparr>invoked := invoked s @ [(name, params)]\<rparr>)"

definition handler_body ::
  "external \<Rightarrow> string \<Rightarrow> zschema option \<Rightarrow> json \<Rightarrow> google_auth \<Rightarrow> server \<Rightarrow>
   tool_response completion \<times> server" where
  "handler_body ext name schema args service s =
     (case schema of
        None \<Rightarrow> call_service ext name JUndefined service s
      | Some sc \<Rightarrow>
          (case validateInput (email_ok ext) sc args of
             Inl e \<Rightarrow> (Raises e, s)
           | Inr params \<Rightarrow> call_service ext name params service s))"

definition handleAuthStatus :: "server \<Rightarrow> tool_response completion \<times> server" where
  "handleAuthStatus s = (Returns (createSuccessResponse (getAuthStatus (disk s))), s)"

definition authenticated_text :: string where
  "authenticated_text =
     check_mark @ '' Successfully authenticated with Google!'' @ newline @ newline @
     ''You can now use Google Meet, Calendar, Gmail, and Docs tools.''"

definition handleAuthenticate :: "external \<Rightarrow> server \<Rightarrow> tool_response completion \<times> server" where
  "handleAuthenticate ext s =
     (case authenticate ext (disk s) of
        (Returns a, f) \<Rightarrow>
          (Returns (createSuccessResponse authenticated_text),
           s\<lparr>authInstance := Some a, meetService := Some a, gmailService := Some a,
             docsService := Some a, disk := f\<rparr>)
      | (Raises e, f) \<Rightarrow>
          (Returns (createErrorResponse (cross_mark @ '' Authentication failed: '' @ error_message e)),
           s\<lparr>disk := f\<rparr>)
      | (Pending, f) \<Rightarrow> (Pending, s\<lparr>disk := f\<rparr>))"

text \<open>
  The \<open>switch\<close> of \<open>handleToolCall\<close>, one row per \<open>case\<close> in its order: the handler a name is
  routed to, given for a service tool by the client it asks for and the schema it validates with.
\<close>

datatype route = AuthStatus | Authenticate | ServiceTool service_kind "zschema option"

definition routes :: "(string \<times> route) list" where
  "routes =
     [(''auth_status'', AuthStatus),
      (''authenticate'', Authenticate),
      (''list_conferences'', ServiceTool Meet (Some ListConferencesSchema)),
      (''get_conference'', ServiceTool Meet (Some GetConferenceSchema)),
      (''list_participants'', ServiceTool Meet (Some ConferenceNameSchema)),
      (''list_recordings'', ServiceTool Meet (Some ConferenceNameSchema)),
      (''list_transcripts'', ServiceTool Meet (Some ConferenceNameSchema)),
      (''get_transcript_text'', ServiceTool Meet (Some TranscriptNameSchema)),
      (''create_meeting'', ServiceTool Meet None),
      (''list_upcoming_meetings'', ServiceTool Meet (Some ListMeetingsSchema)),
      (''list_past_meetings'', ServiceTool Meet (Some ListMeetingsSchema)),
      (''summarize_transcript'', ServiceTool Meet (Some TranscriptNameSchema)),
      (''create_calendar_event'', ServiceTool Meet (Some CreateCalendarEventSchema)),
      (''gmail_profile'', ServiceTool Gmail None),
      (''list_emails'', ServiceTool Gmail (Some ListEmailsSchema)),
      (''search_emails'', ServiceTool Gmail (Some SearchEmailsSchema)),
      (''get_email'', ServiceTool Gmail (Some GetEmailSchema)),
      (''get_thread'', ServiceTool Gmail (Some GetThreadSchema)),
      (''send_email'', ServiceTool Gmail (Some SendEmailSchema)),
      (''create_draft'', ServiceTool Gmail (Some SendEmailSchema)),
      (''list_labels'', ServiceTool Gmail None),
      (''trash_email'', ServiceTool Gmail (Some TrashEmailSchema)),
      (''mark_as_read'', ServiceTool Gmail (Some MarkEmailSchema)),
      (''mark_as_unread'', ServiceTool Gmail (Some MarkEmailSchema)),
      (''list_docs'', ServiceTool Docs (Some ListDocsSchema)),
      (''search_docs'', ServiceTool Docs (Some SearchDocsSchema)),
      (''get_doc'', ServiceTool Docs (Some GetDocSchema)),
      (''create_doc'', ServiceTool Docs (Some CreateDocSchema)),
      (''append_to_doc'', ServiceTool Docs (Some AppendToDocSchema)),
      (''replace_in_doc'', ServiceTool Docs (Some ReplaceInDocSchema))]"

definition handleToolCall ::
  "external \<Rightarrow> string \<Rightarrow> json \<Rightarrow> server \<Rightarrow> tool_response completion \<times> server" where
  "handleToolCall ext name args s =
     (case map_of routes name of
        Some AuthStatus \<Rightarrow> handleAuthStatus s
      | Some Authenticate \<Rightarrow> handleAuthenticate ext s
      | Some (ServiceTool kind schema) \<Rightarrow> withAuth ext kind (handler_body ext name schema args) s
      | None \<Rightarrow> (Returns (createErrorResponse (''Unknown tool: '' @ name)), s))"

text \<open>
  The request handler of index.ts: the response the caller receives, \<open>None\<close> when the call never
  settles.
\<close>

definition call_tool :: "external \<Rightarrow> string \<Rightarrow> json \<Rightarrow> server \<Rightarrow> tool_response option \<times> server" where
  "call_tool ext name args s =
     (case handleToolCall ext name args s of
        (Returns r, s') \<Rightarrow> (Some r, s')
      | (Raises e, s') \<Rightarrow> (Some (createErrorResponse (''Error: '' @ error_message e)), s')
      | (Pending, s') \<Rightarrow> (None, s'))"

text \<open>
  The states of a running server: it starts with nothing cached, serves calls one after the
  other (the world outside may answer each call differently), and the two files may change
  between calls.
\<close>

definition initial :: "files \<Rightarrow> server" where
  "initial f =
     \<lparr>authInstance = None, meetService = None, gmailService = None, docsService = None,
      disk = f, invoked = []\<rparr>"

inductive reachable :: "server \<Rightarrow> bool" where
  start: "reachable (initial f)"
| served: "reachable s \<Longrightarrow> call_tool ext name args s = (r, s') \<Longrightarrow> reachable s'"
| edited: "reachable s \<Longrightarrow> reachable (s\<lparr>disk := f\<rparr>)"

text \<open>A tool requires authentication when its handler asks for a service client.\<close>

definition requires_auth :: "string \<Rightarrow> bool" where
  "requires_auth name = (case map_of routes name of Some (ServiceTool _ _) \<Rightarrow> True | _ \<Rightarrow> False)"

text \<open>Sample surroundings for the worked examples below.\<close>

definition sample_external :: external where
  "sample_external =
     \<lparr>email_ok = (\<lambda>s. CHR ''@'' \<in> set s),
      credentialsPath = ''/srv/credentials.json'',
      interactive_flow = ExchangeFailed (ErrorObj ''invalid_grant''),
      service_op = (\<lambda>name client params. Returns ''done'')\<rparr>"

definition no_files :: files where
  "no_files = \<lparr>credentials = NoCredentials, token = NoToken\<rparr>"

definition service_account_files :: files where
  "service_account_files =
     \<lparr>credentials = ServiceAccountFile ''bot@project.iam.gserviceaccount.com'', token = NoToken\<rparr>"

definition oauth_files :: files where
  "oauth_files = \<lparr>credentials = OAuthFile True, token = NoToken\<rparr>"

text \<open>A client is only ever built from the cached credential, so none is cached without one.\<close>

definition coherent :: "server \<Rightarrow> bool" where
  "coherent s =
     (authInstance s = None \<longrightarrow> meetService s = None \<and> gmailService s = None \<and> docsService s = None)"

text \<open>The schema a tool validates its arguments with (empty for a tool that validates nothing).\<close>

definition tool_schema :: "string \<Rightarrow> zschema" where
  "tool_schema name =
     (case map_of routes name of Some (ServiceTool _ (Some schema)) \<Rightarrow> schema | _ \<Rightarrow> [])"

text \<open>
  The tools that take a result limit, each with the maximum the tool catalogue documents
  for it.
\<close>

definition declared_limit :: "(string \<times> int) list" where
  "declared_limit =
     [(''list_conferences'', 100), (''list_upcoming_meetings'', 100), (''list_past_meetings'', 100),
      (''list_emails'', 50), (''search_emails'', 50), (''list_docs'', 50), (''search_docs'', 50)]"

definition takes_query :: "string \<Rightarrow> bool" where
  "takes_query name = (name = ''search_emails'' \<or> name = ''search_docs'')"

fun nonempty_string :: "json \<Rightarrow> bool" where
  "nonempty_string (JStr q) = (q \<noteq> [])"
| "nonempty_string _ = False"

section \<open>The Meet and Calendar client (meet-api.ts)\<close>




text \<open>A string is truthy when it is there and not empty.\<close>

fun truthy :: "string option \<Rightarrow> bool" where
  "truthy None = False"
| "truthy (Some s) = (s \<noteq> [])"



definition or_empty :: "'a list option \<Rightarrow> 'a list" where
  "or_empty items = (case items of None \<Rightarrow> [] | Some xs \<Rightarrow> xs)"








section \<open>The Gmail client (gmail-api.ts)\<close>

record messages_list_request =
  list_userId :: string
  list_q :: "string option"
  list_maxResults :: int
  list_labelIds :: "string list"

record messages_get_request =
  get_userId :: string
  get_id :: string
  get_format :: string

text \<open>A message as the service returns it, identified here by its id and its labels.\<close>

record gmail_message =
  message_id :: string
  labelIds :: "string list"

text \<open>
  The mail service: \<open>users.messages.list\<close> answers with the ids of the matching messages
  (\<open>messages\<close> may be missing), \<open>users.messages.get\<close> with one message; \<open>users.messages.send\<close>
  and \<open>users.drafts.create\<close> take the raw message.
\<close>

record gmail_world =
  messages_list :: "messages_list_request \<Rightarrow> string list option completion"
  messages_get :: "messages_get_request \<Rightarrow> gmail_message completion"
  messages_send :: "string \<Rightarrow> gmail_message completion"
  drafts_create :: "string \<Rightarrow> gmail_message completion"

text \<open>The defaults of config.ts that the client uses.\<close>

definition gmail_maxResults :: int where
  "gmail_maxResults = 10"

definition gmail_defaultLabels :: "string list" where
  "gmail_defaultLabels = [''INBOX'']"

definition getMessage :: "gmail_world \<Rightarrow> string \<Rightarrow> gmail_message completion" where
  "getMessage g messageId =
     (case messages_get g \<lparr>get_userId = ''me'', get_id = messageId, get_format = ''full''\<rparr> of
        Returns m \<Rightarrow> Returns m
      | Raises e \<Rightarrow> Raises (ErrorObj (''Failed to get message: '' @ error_message e))
      | Pending \<Rightarrow> Pending)"

text \<open>
  \<open>Promise.all\<close>: all the calls are started; the result is the list of their values, or the
  rejection of one that throws (the model takes the first in list order), or never settles.
\<close>

fun first_raised :: "'a completion list \<Rightarrow> thrown option" where
  "first_raised [] = None"
| "first_raised (Raises e # cs) = Some e"
| "first_raised (_ # cs) = first_raised cs"

fun returned :: "'a completion list \<Rightarrow> 'a list option" where
  "returned [] = Some []"
| "returned (Returns x # cs) = (case returned cs of None \<Rightarrow> None | Some xs \<Rightarrow> Some (x # xs))"
| "returned (_ # cs) = None"

definition promise_all :: "'a completion list \<Rightarrow> 'a list completion" where
  "promise_all cs =
     (case first_raised cs of
        Some e \<Rightarrow> Raises e
      | None \<Rightarrow> (case returned cs of Some xs \<Rightarrow> Returns xs | None \<Rightarrow> Pending))"

text \<open>
  \<open>listMessages(query?, maxResults = config.gmail.maxResults, labelIds =
  config.gmail.defaultLabels)\<close>: an argument that is left out (\<open>None\<close>) takes its default.
  \<open>list_params\<close> is the request object the method builds.
\<close>

definition list_params ::
  "string option \<Rightarrow> int option \<Rightarrow> string list option \<Rightarrow> messages_list_request" where
  "list_params query max_results label_ids =
     \<lparr>list_userId = ''me'', list_q = query,
      list_maxResults = (case max_results of None \<Rightarrow> gmail_maxResults | Some n \<Rightarrow> n),
      list_labelIds = (case label_ids of None \<Rightarrow> gmail_defaultLabels | Some ls \<Rightarrow> ls)\<rparr>"

definition listMessages ::
  "gmail_world \<Rightarrow> string option \<Rightarrow> int option \<Rightarrow> string list option \<Rightarrow> gmail_message list completion"
  where
  "listMessages g query max_results label_ids =
     (case messages_list g (list_params query max_results label_ids) of
        Returns messages \<Rightarrow>
          (case promise_all (map (getMessage g) (or_empty messages)) of
             Returns fullMessages \<Rightarrow> Returns fullMessages
           | Raises e \<Rightarrow> Raises (ErrorObj (''Failed to list messages: '' @ error_message e))
           | Pending \<Rightarrow> Pending)
      | Raises e \<Rightarrow> Raises (ErrorObj (''Failed to list messages: '' @ error_message e))
      | Pending \<Rightarrow> Pending)"

definition searchEmails ::
  "gmail_world \<Rightarrow> string \<Rightarrow> int option \<Rightarrow> gmail_message list completion" where
  "searchEmails g query max_results = listMessages g (Some query) max_results (Some [])"

text \<open>
  The client calls of the two handlers, on the validated \<open>limit\<close> and \<open>query\<close>:
  \<open>service.listMessages(undefined, limit)\<close> in \<open>handleListEmails\<close> and
  \<open>service.searchEmails(query, limit)\<close> in \<open>handleSearchEmails\<close>.
\<close>

definition list_emails_call :: "gmail_world \<Rightarrow> int \<Rightarrow> gmail_message list completion" where
  "list_emails_call g limit = listMessages g None (Some limit) None"

definition search_emails_call :: "gmail_world \<Rightarrow> string \<Rightarrow> int \<Rightarrow> gmail_message list completion" where
  "search_emails_call g query limit = searchEmails g query (Some limit)"

text \<open>
  The routine both share, as a function of the request sent to \<open>users.messages.list\<close>: list,
  then fetch every listed message in full.
\<close>

definition list_and_fetch :: "gmail_world \<Rightarrow> messages_list_request \<Rightarrow> gmail_message list completion" where
  "list_and_fetch g request =
     (case messages_list g request of
        Returns messages \<Rightarrow>
          (case promise_all (map (getMessage g) (or_empty messages)) of
             Returns fullMessages \<Rightarrow> Returns fullMessages
           | Raises e \<Rightarrow> Raises (ErrorObj (''Failed to list messages: '' @ error_message e))
           | Pending \<Rightarrow> Pending)
      | Raises e \<Rightarrow> Raises (ErrorObj (''Failed to list messages: '' @ error_message e))
      | Pending \<Rightarrow> Pending)"

text \<open>A sample mailbox: the inbox holds one message, an archived one matches a search.\<close>

definition sample_gmail :: gmail_world where
  "sample_gmail =
     \<lparr>messages_list = (\<lambda>r. Returns (Some
         (if list_labelIds r = [''INBOX''] then [''m1'']
          else if list_labelIds r = [] then [''m1'', ''m2''] else []))),
      messages_get = (\<lambda>r. Returns
         \<lparr>message_id = get_id r, labelIds = (if get_id r = ''m1'' then [''INBOX''] else [])\<rparr>),
      messages_send = (\<lambda>raw. Returns \<lparr>message_id = ''sent'', labelIds = [''SENT'']\<rparr>),
      drafts_create = (\<lambda>raw. Returns \<lparr>message_id = ''draft'', labelIds = [''DRAFT'']\<rparr>)\<rparr>"

text \<open>The validated parameters of \<open>send_email\<close> and \<open>create_draft\<close>.\<close>

record send_email_params =
  to :: string
  subject :: string
  body :: string
  cc :: "string option"
  bcc :: "string option"

text \<open>
  \<open>Buffer.from(email).toString("base64")\<close>: the bytes of the text, three at a time, as four
  characters of the standard alphabet, the last group padded with \<open>=\<close>.
\<close>

definition base64_alphabet :: string where
  "base64_alphabet = ''ABCDEFGHIJKLMNOPQRSTUVWXYZabcdefghijklmnopqrstuvwxyz0123456789+/''"

definition b64 :: "nat \<Rightarrow> char" where
  "b64 n = base64_alphabet ! n"

fun base64 :: "string \<Rightarrow> string" where
  "base64 [] = []"
| "base64 [a] =
     [b64 (of_char a div 4), b64 (of_char a mod 4 * 16), CHR ''='', CHR ''='']"
| "base64 [a, b] =
     [b64 (of_char a div 4), b64 (of_char a mod 4 * 16 + of_char b div 16),
      b64 (of_char b mod 16 * 4), CHR ''='']"
| "base64 (a # b # c # rest) =
     [b64 (of_char a div 4), b64 (of_char a mod 4 * 16 + of_char b div 16),
      b64 (of_char b mod 16 * 4 + of_char c div 64), b64 (of_char c mod 64)] @ base64 rest"

text \<open>\<open>s.replace(/c/g, d)\<close> for a single character, and \<open>s.replace(/=+$/, "")\<close>.\<close>

definition replace_all :: "char \<Rightarrow> char \<Rightarrow> string \<Rightarrow> string" where
  "replace_all c d s = map (\<lambda>x. if x = c then d else x) s"

definition strip_trailing_equals :: "string \<Rightarrow> string" where
  "strip_trailing_equals s = rev (dropWhile (\<lambda>x. x = CHR ''='') (rev s))"

definition crlf :: string where
  "crlf = [CHR 0x0D, CHR 0x0A]"

definition sendEmail_raw :: "send_email_params \<Rightarrow> string" where
  "sendEmail_raw params =
     (let headers =
            [''To: '' @ to params,
             ''Subject: '' @ subject params,
             ''Content-Type: text/plain; charset=utf-8'',
             ''MIME-Version: 1.0''];
          headers = (if truthy (cc params) then headers @ [''Cc: '' @ the (cc params)] else headers);
          headers = (if truthy (bcc params) then headers @ [''Bcc: '' @ the (bcc params)] else headers);
          email = join crlf headers @ crlf @ crlf @ body params
      in strip_trailing_equals
           (replace_all (CHR ''/'') (CHR ''_'') (replace_all (CHR ''+'') (CHR ''-'') (base64 email))))"

definition createDraft_raw :: "send_email_params \<Rightarrow> string" where
  "createDraft_raw params =
     (let headers =
            [''To: '' @ to params,
             ''Subject: '' @ subject params,
             ''Content-Type: text/plain; charset=utf-8'',
             ''MIME-Version: 1.0''];
          headers = (if truthy (cc params) then headers @ [''Cc: '' @ the (cc params)] else headers);
          headers = (if truthy (bcc params) then headers @ [''Bcc: '' @ the (bcc params)] else headers);
          email = join crlf headers @ crlf @ crlf @ body params
      in strip_trailing_equals
           (replace_all (CHR ''/'') (CHR ''_'') (replace_all (CHR ''+'') (CHR ''-'') (base64 email))))"

definition sendEmail :: "gmail_world \<Rightarrow> send_email_params \<Rightarrow> gmail_message completion" where
  "sendEmail g params =
     (case messages_send g (sendEmail_raw params) of
        Returns m \<Rightarrow> Returns m
      | Raises e \<Rightarrow> Raises (ErrorObj (''Failed to send email: '' @ error_message e))
      | Pending \<Rightarrow> Pending)"

definition createDraft :: "gmail_world \<Rightarrow> send_email_params \<Rightarrow> gmail_message completion" where
  "createDraft g params =
     (case drafts_create g (createDraft_raw params) of
        Returns m \<Rightarrow> Returns m
      | Raises e \<Rightarrow> Raises (ErrorObj (''Failed to create draft: '' @ error_message e))
      | Pending \<Rightarrow> Pending)"

text \<open>
  The encoding the description names, base64url without padding: the alphabet with \<open>-\<close> and
  \<open>_\<close> in the last two places, and no \<open>=\<close> after a short last group.
\<close>

definition base64url_alphabet :: string where
  "base64url_alphabet = ''ABCDEFGHIJKLMNOPQRSTUVWXYZabcdefghijklmnopqrstuvwxyz0123456789-_''"

definition b64url :: "nat \<Rightarrow> char" where
  "b64url n = base64url_alphabet ! n"

fun base64url_nopad :: "string \<Rightarrow> string" where
  "base64url_nopad [] = []"
| "base64url_nopad [a] = [b64url (of_char a div 4), b64url (of_char a mod 4 * 16)]"
| "base64url_nopad [a, b] =
     [b64url (of_char a div 4), b64url (of_char a mod 4 * 16 + of_char b div 16),
      b64url (of_char b mod 16 * 4)]"
| "base64url_nopad (a # b # c # rest) =
     [b64url (of_char a div 4), b64url (of_char a mod 4 * 16 + of_char b div 16),
      b64url (of_char b mod 16 * 4 + of_char c div 64), b64url (of_char c mod 64)]
     @ base64url_nopad rest"

text \<open>
  The message as the description gives it: the header lines To and Subject, then Cc and Bcc
  when present, joined by CRLF, a blank line, the body.
\<close>

definition described_message :: "send_email_params \<Rightarrow> string" where
  "described_message params =
     join crlf
       ([''To: '' @ to params, ''Subject: '' @ subject params] @
        (case cc params of None \<Rightarrow> [] | Some c \<Rightarrow> [''Cc: '' @ c]) @
        (case bcc params of None \<Rightarrow> [] | Some b \<Rightarrow> [''Bcc: '' @ b]))
     @ crlf @ crlf @ body params"

text \<open>
  The message with the two fixed header lines the client adds after Subject, and with Cc and
  Bcc only when they are not empty.
\<close>

definition mime_message :: "send_email_params \<Rightarrow> string" where
  "mime_message params =
     join crlf
       ([''To: '' @ to params, ''Subject: '' @ subject params,
         ''Content-Type: text/plain; charset=utf-8'', ''MIME-Version: 1.0''] @
        (case cc params of None \<Rightarrow> [] | Some c \<Rightarrow> if c = [] then [] else [''Cc: '' @ c]) @
        (case bcc params of None \<Rightarrow> [] | Some b \<Rightarrow> if b = [] then [] else [''Bcc: '' @ b]))
     @ crlf @ crlf @ body params"

definition sample_mail :: send_email_params where
  "sample_mail = \<lparr>to = ''a@b.co'', subject = ''Hi'', body = ''Hello?'', cc = None, bcc = None\<rparr>"

text \<open>The \<open>=\<close> characters that standard base64 appends to the encoding of a text.\<close>

definition padding :: "string \<Rightarrow> string" where
  "padding s = replicate ((3 - length s mod 3) mod 3) (CHR ''='')"

text \<open>The two replacements, as one function on characters.\<close>

definition url_safe :: "char \<Rightarrow> char" where
  "url_safe x = (if x = CHR ''+'' then CHR ''-'' else if x = CHR ''/'' then CHR ''_'' else x)"

section \<open>Creating a calendar event (meet-api.ts)\<close>

text \<open>
  The regular expressions of \<open>parseDateTime\<close> work on characters; on the UTF-8 bytes of a text
  a digit and a letter are one byte, and a white-space character (\<open>\s\<close>) is one of the byte
  sequences of \<open>white_space\<close>. The dot of a regular expression matches anything but the four
  line terminators.
\<close>

definition is_digit :: "char \<Rightarrow> bool" where
  "is_digit c = (c \<in> set ''0123456789'')"

definition digit_value :: "char \<Rightarrow> nat" where
  "digit_value c = of_char c - 48"

definition parseInt :: "string \<Rightarrow> nat" where
  "parseInt ds = foldl (\<lambda>n c. 10 * n + digit_value c) 0 ds"

definition white_space :: "string list" where
  "white_space =
     [[CHR 0x09], [CHR 0x0A], [CHR 0x0B], [CHR 0x0C], [CHR 0x0D], [CHR 0x20],
      [CHR 0xC2, CHR 0xA0], [CHR 0xE1, CHR 0x9A, CHR 0x80],
      [CHR 0xE2, CHR 0x80, CHR 0x80], [CHR 0xE2, CHR 0x80, CHR 0x81],
      [CHR 0xE2, CHR 0x80, CHR 0x82], [CHR 0xE2, CHR 0x80, CHR 0x83],
      [CHR 0xE2, CHR 0x80, CHR 0x84], [CHR 0xE2, CHR 0x80, CHR 0x85],
      [CHR 0xE2, CHR 0x80, CHR 0x86], [CHR 0xE2, CHR 0x80, CHR 0x87],
      [CHR 0xE2, CHR 0x80, CHR 0x88], [CHR 0xE2, CHR 0x80, CHR 0x89],
      [CHR 0xE2, CHR 0x80, CHR 0x8A], [CHR 0xE2, CHR 0x80, CHR 0xA8],
      [CHR 0xE2, CHR 0x80, CHR 0xA9], [CHR 0xE2, CHR 0x80, CHR 0xAF],
      [CHR 0xE2, CHR 0x81, CHR 0x9F], [CHR 0xE3, CHR 0x80, CHR 0x80],
      [CHR 0xEF, CHR 0xBB, CHR 0xBF]]"

definition line_terminators :: "string list" where
  "line_terminators =
     [[CHR 0x0A], [CHR 0x0D], [CHR 0xE2, CHR 0x80, CHR 0xA8], [CHR 0xE2, CHR 0x80, CHR 0xA9]]"

definition starts_with :: "string \<Rightarrow> string \<Rightarrow> bool" where
  "starts_with s w = (take (length w) s = w)"

text \<open>
  \<open>skip_space fuel s\<close> splits \<open>s\<close> into its leading white-space characters and the rest; a
  text of \<open>n\<close> bytes needs no more than \<open>n\<close> steps.
\<close>

fun skip_space :: "nat \<Rightarrow> string \<Rightarrow> string list \<times> string" where
  "skip_space 0 s = ([], s)"
| "skip_space (Suc fuel) s =
     (case find (starts_with s) white_space of
        None \<Rightarrow> ([], s)
      | Some w \<Rightarrow> (case skip_space fuel (drop (length w) s) of (ws, r) \<Rightarrow> (w # ws, r)))"

definition leading_space :: "string \<Rightarrow> string list \<times> string" where
  "leading_space s = skip_space (length s) s"

fun has_line_terminator :: "string \<Rightarrow> bool" where
  "has_line_terminator [] = False"
| "has_line_terminator (c # s) =
     ((\<exists>t \<in> set line_terminators. starts_with (c # s) t) \<or> has_line_terminator s)"

text \<open>
  \<open>/^(\d{4}-\d{2}-\d{2})\s+(.+)$/\<close>: the date, and the rest after the white space. When nothing
  follows the white space, the expression gives its last white-space character to the second
  group (if there are two or more and the last is no line terminator).
\<close>

definition date_shaped :: "string \<Rightarrow> bool" where
  "date_shaped d =
     (length d = 10 \<and> list_all (\<lambda>i. is_digit (d ! i)) [0, 1, 2, 3, 5, 6, 8, 9] \<and>
      d ! 4 = CHR ''-'' \<and> d ! 7 = CHR ''-'')"

definition dateMatch :: "string \<Rightarrow> (string \<times> string) option" where
  "dateMatch input =
     (if date_shaped (take 10 input) then
        (case leading_space (drop 10 input) of
           ([], r) \<Rightarrow> None
         | (w # ws, r) \<Rightarrow>
             if has_line_terminator r then None
             else if r \<noteq> [] then Some (take 10 input, r)
             else if ws \<noteq> [] \<and> last ws \<notin> set line_terminators then Some (take 10 input, last ws)
             else None)
      else None)"

definition lower :: "char \<Rightarrow> char" where
  "lower c = (if c = CHR ''A'' then CHR ''a'' else if c = CHR ''M'' then CHR ''m''
              else if c = CHR ''P'' then CHR ''p'' else c)"

definition am_pm :: "string \<Rightarrow> bool option" where
  "am_pm s = (if map lower s = ''pm'' then Some True
              else if map lower s = ''am'' then Some False else None)"

text \<open>\<open>(\d{1,2})\<close> at the start of a text that continues with something that is no digit.\<close>

definition leading_hours :: "string \<Rightarrow> (nat \<times> string) option" where
  "leading_hours s =
     (let ds = takeWhile is_digit s
      in if length ds = 1 \<or> length ds = 2 then Some (parseInt ds, dropWhile is_digit s) else None)"

text \<open>\<open>/^(\d{1,2}):(\d{2})$/\<close>\<close>

definition time24Match :: "string \<Rightarrow> (nat \<times> nat) option" where
  "time24Match s =
     (case leading_hours s of
        Some (h, c # m) \<Rightarrow>
          if c = CHR '':'' \<and> length m = 2 \<and> list_all is_digit m then Some (h, parseInt m) else None
      | _ \<Rightarrow> None)"

text \<open>\<open>/^(\d{1,2}):(\d{2})\s*(am|pm)$/i\<close>\<close>

definition time12Match :: "string \<Rightarrow> (nat \<times> nat \<times> bool) option" where
  "time12Match s =
     (case leading_hours s of
        Some (h, c # r) \<Rightarrow>
          if c = CHR '':'' \<and> length (take 2 r) = 2 \<and> list_all is_digit (take 2 r) then
            (case am_pm (snd (leading_space (drop 2 r))) of
               Some pm \<Rightarrow> Some (h, parseInt (take 2 r), pm)
             | None \<Rightarrow> None)
          else None
      | _ \<Rightarrow> None)"

text \<open>\<open>/^(\d{1,2})\s*(am|pm)?$/i\<close>\<close>

definition hourMatch :: "string \<Rightarrow> (nat \<times> bool option) option" where
  "hourMatch s =
     (case leading_hours s of
        Some (h, r) \<Rightarrow>
          (let r' = snd (leading_space r)
           in if r' = [] then Some (h, None)
              else (case am_pm r' of Some pm \<Rightarrow> Some (h, Some pm) | None \<Rightarrow> None))
      | None \<Rightarrow> None)"

definition to12 :: "bool \<Rightarrow> nat \<Rightarrow> nat" where
  "to12 isPM hours =
     (if isPM \<and> hours \<noteq> 12 then hours + 12
      else if \<not> isPM \<and> hours = 12 then 0 else hours)"

text \<open>\<open>s.padStart(2, "0")\<close>\<close>

definition padStart2 :: "string \<Rightarrow> string" where
  "padStart2 s = replicate (2 - length s) (CHR ''0'') @ s"

definition parseDateTime :: "string \<Rightarrow> string \<Rightarrow> string" where
  "parseDateTime input timezone =
     (if CHR ''T'' \<in> set input \<or> CHR ''Z'' \<in> set input then input
      else
        (case dateMatch input of
           Some (datePart, timePart) \<Rightarrow>
             (let (hours, minutes) =
                    (case time24Match timePart of
                       Some (h, m) \<Rightarrow> (h, m)
                     | None \<Rightarrow>
                         (case time12Match timePart of
                            Some (h, m, isPM) \<Rightarrow> (to12 isPM h, m)
                          | None \<Rightarrow>
                              (case hourMatch timePart of
                                 Some (h, Some isPM) \<Rightarrow> (to12 isPM h, 0)
                               | Some (h, None) \<Rightarrow> (h, 0)
                               | None \<Rightarrow> (0, 0))))
              in datePart @ ''T'' @ padStart2 (show_nat hours) @ '':'' @ padStart2 (show_nat minutes)
                 @ '':00'')
         | None \<Rightarrow> input))"

text \<open>\<open>s.split(c)\<close> for a single character \<open>c\<close>.\<close>

fun split_on :: "char \<Rightarrow> string \<Rightarrow> string list" where
  "split_on c [] = [[]]"
| "split_on c (x # s) =
     (if x = c then [] # split_on c s
      else (case split_on c s of p # ps \<Rightarrow> (x # p) # ps | [] \<Rightarrow> [[x]]))"

text \<open>
  \<open>Number(s)\<close> on a piece of the time: the empty text is 0, a text of up to thirteen decimal
  digits is its value (the arithmetic on it is then exact). Any other text (\<open>None\<close>) is left outside the model: it may give
  \<open>NaN\<close>, a fraction or a number in another notation.
\<close>

definition Number :: "string \<Rightarrow> int option" where
  "Number s =
     (if s = [] then Some 0
      else if list_all is_digit s \<and> length s \<le> 13 then Some (int (parseInt s)) else None)"

text \<open>The remainder \<open>a % b\<close> of JavaScript for a positive \<open>b\<close>: it has the sign of \<open>a\<close>.\<close>

definition js_rem :: "int \<Rightarrow> int \<Rightarrow> int" where
  "js_rem a b = (if a < 0 then - ((- a) mod b) else a mod b)"

text \<open>
  The end of the event: the text sent as \<open>end.dateTime\<close>, or the \<open>TypeError\<close> thrown when the
  start has no "T" to split at (the method rethrows it as "Failed to create calendar event:
  ..."), or a computation on numbers the model does not cover.
\<close>

datatype end_time = EndTime string | SplitOfUndefined | NotModelled

record calendar_event_params =
  start_time :: string
  end_time :: "string option"
  duration_minutes :: "int option"
  timezone :: "string option"

definition computed_end :: "string \<Rightarrow> int \<Rightarrow> end_time" where
  "computed_end startDateTime durationMinutes =
     (case split_on (CHR ''T'') startDateTime of
        datePart # timePart # _ \<Rightarrow>
          (case split_on (CHR '':'') timePart of
             h # m # _ \<Rightarrow>
               (case (Number h, Number m) of
                  (Some hours, Some minutes) \<Rightarrow>
                    (let totalMinutes = hours * 60 + minutes + durationMinutes;
                         endHours = js_rem (totalMinutes div 60) 24;
                         endMins = js_rem totalMinutes 60
                     in EndTime (datePart @ ''T'' @ padStart2 (show_int endHours) @ '':'' @
                                 padStart2 (show_int endMins) @ '':00''))
                | _ \<Rightarrow> NotModelled)
           | _ \<Rightarrow> EndTime (datePart @ ''TNaN:NaN:00''))
      | _ \<Rightarrow> SplitOfUndefined)"

text \<open>
  The start and the end that \<open>createCalendarEvent\<close> puts into the request (\<open>start.dateTime\<close>
  and \<open>end.dateTime\<close>).
\<close>

definition createCalendarEvent_times :: "calendar_event_params \<Rightarrow> string \<times> end_time" where
  "createCalendarEvent_times params =
     (let tz = (if truthy (timezone params) then the (timezone params) else ''America/Los_Angeles'');
          startDateTime = parseDateTime (start_time params) tz
      in (startDateTime,
          if truthy (end_time params) then EndTime (parseDateTime (the (end_time params)) tz)
          else computed_end startDateTime
                 (case duration_minutes params of
                    None \<Rightarrow> 60
                  | Some d \<Rightarrow> if d = 0 then 60 else d)))"

text \<open>The typed parameters read from a validated \<open>create_calendar_event\<close> record.\<close>

fun as_string :: "json \<Rightarrow> string option" where
  "as_string (JStr s) = Some s"
| "as_string _ = None"

fun as_int :: "json \<Rightarrow> int option" where
  "as_int (JNum x) = Some \<lfloor>x\<rfloor>"
| "as_int _ = None"

definition calendar_params :: "(string \<times> json) list \<Rightarrow> calendar_event_params" where
  "calendar_params kvs =
     \<lparr>start_time = (case field kvs ''start_time'' of JStr s \<Rightarrow> s | _ \<Rightarrow> []),
      end_time = as_string (field kvs ''end_time''),
      duration_minutes = as_int (field kvs ''duration_minutes''),
      timezone = as_string (field kvs ''timezone'')\<rparr>"

text \<open>Two calls of \<open>create_calendar_event\<close> that give a start and leave the end to the default.\<close>

definition afternoon_event :: json where
  "afternoon_event = JObj [(''summary'', JStr ''Sync''), (''start_time'', JStr ''2026-01-30 14:00'')]"

definition late_event :: json where
  "late_event = JObj [(''summary'', JStr ''Sync''), (''start_time'', JStr ''2026-01-30 23:30'')]"

definition validated_times :: "json \<Rightarrow> (string \<times> end_time) option" where
  "validated_times args =
     (case validateInput (email_ok sample_external) CreateCalendarEventSchema args of
        Inr (JObj kvs) \<Rightarrow> Some (createCalendarEvent_times (calendar_params kvs))
      | _ \<Rightarrow> None)"

section \<open>Properties\<close>

subsection \<open>The cache stays coherent\<close>

lemma call_service_caches:
  "call_service ext name params c s = (r, s') \<Longrightarrow> s' = s\<lparr>invoked := invoked s'\<rparr>"
  by (auto simp: call_service_def)

lemma handler_body_caches:
  "handler_body ext name schema args c s = (r, s') \<Longrightarrow> s' = s\<lparr>invoked := invoked s'\<rparr>"
  by (auto simp: handler_body_def dest: call_service_caches split: option.splits sum.splits)

lemma on_error_state: "on_error e s = (r, s') \<Longrightarrow> s' = s"
  by (auto simp: on_error_def split: if_splits)

lemma ensureAuth_coherent:
  "coherent s \<Longrightarrow> ensureAuth ext s = (r, s') \<Longrightarrow>
   coherent s' \<and> (case r of Returns a \<Rightarrow> authInstance s' = Some a | _ \<Rightarrow> True)"
  by (auto simp: ensureAuth_def coherent_def split: option.splits if_splits completion.splits prod.splits)

lemma cache_coherent: "authInstance s = Some a \<Longrightarrow> coherent (cache kind b s)"
  by (cases kind) (simp_all add: coherent_def)

lemma getService_coherent:
  assumes "coherent s" "getService ext kind s = (r, s')"
  shows "coherent s'"
proof (cases "cached kind s")
  case (Some c)
  with assms show ?thesis by (simp add: getService_def)
next
  case None
  obtain r0 s0 where e: "ensureAuth ext s = (r0, s0)" by (cases "ensureAuth ext s")
  from ensureAuth_coherent [OF assms(1) e] assms(2) None e show ?thesis
    by (cases r0) (auto simp: getService_def intro: cache_coherent)
qed

lemma coherent_invoked: "coherent (s\<lparr>invoked := l\<rparr>) = coherent s"
  by (simp add: coherent_def)

lemma withAuth_coherent:
  assumes "coherent s" "withAuth ext kind (handler_body ext name schema args) s = (r, s')"
  shows "coherent s'"
proof -
  obtain r0 s0 where g: "getService ext kind s = (r0, s0)" by (cases "getService ext kind s")
  have c0: "coherent s0" using getService_coherent [OF assms(1) g] .
  show ?thesis
  proof (cases r0)
    case (Returns c)
    obtain r1 s1 where h: "handler_body ext name schema args c s0 = (r1, s1)"
      by (cases "handler_body ext name schema args c s0")
    have "coherent s1" using handler_body_caches [OF h] c0 coherent_invoked by metis
    with assms(2) g Returns h show ?thesis
      by (cases r1) (auto simp: withAuth_def dest: on_error_state)
  next
    case (Raises e)
    with assms(2) g c0 show ?thesis by (auto simp: withAuth_def dest: on_error_state)
  next
    case Pending
    with assms(2) g c0 show ?thesis by (auto simp: withAuth_def)
  qed
qed

lemma handleAuthenticate_coherent:
  "coherent s \<Longrightarrow> handleAuthenticate ext s = (r, s') \<Longrightarrow> coherent s'"
  by (auto simp: handleAuthenticate_def coherent_def split: prod.splits completion.splits)

lemma handleToolCall_coherent:
  assumes "coherent s" "handleToolCall ext name args s = (r, s')"
  shows "coherent s'"
proof (cases "map_of routes name")
  case None
  with assms show ?thesis by (simp add: handleToolCall_def)
next
  case (Some rt)
  with assms show ?thesis
    by (cases rt)
      (auto simp: handleToolCall_def handleAuthStatus_def
            dest: handleAuthenticate_coherent withAuth_coherent)
qed

lemma call_tool_coherent:
  assumes "coherent s" "call_tool ext name args s = (r, s')"
  shows "coherent s'"
proof -
  obtain r0 s0 where h: "handleToolCall ext name args s = (r0, s0)"
    by (cases "handleToolCall ext name args s")
  from handleToolCall_coherent [OF assms(1) h] assms(2) h show ?thesis
    by (cases r0) (auto simp: call_tool_def)
qed

lemma reachable_coherent: "reachable s \<Longrightarrow> coherent s"
proof (induction rule: reachable.induct)
  case (start f)
  show ?case by (simp add: coherent_def initial_def)
next
  case (served s ext name args r s')
  then show ?case using call_tool_coherent by blast
next
  case (edited s f)
  then show ?case by (simp add: coherent_def)
qed

lemma coherent_cached: "coherent s \<Longrightarrow> authInstance s = None \<Longrightarrow> cached kind s = None"
  by (cases kind) (simp_all add: coherent_def)

lemma authenticate_raises_disk: "authenticate ext f = (Raises e, f') \<Longrightarrow> f' = f"
  by (auto simp: authenticate_def authenticateOAuth_def fromJSON_def
           split: credentials_file.splits option.splits sum.splits if_splits flow_outcome.splits
                  token_file.splits)

subsection \<open>The not-authenticated envelope\<close>

text \<open>The tools that require authentication are all the routed ones but the two of the
  authentication itself.\<close>

lemma requires_auth_names:
  "requires_auth name \<longleftrightarrow>
     name \<in> fst ` set routes \<and> name \<noteq> ''auth_status'' \<and> name \<noteq> ''authenticate''"
  by (simp add: requires_auth_def routes_def)

text \<open>
  Claim C1. Take any tool that requires authentication, in any state the server can reach in
  which no credential is cached and \<open>isAuthenticated()\<close> is false. Whatever the arguments are
  (also ones the tool's schema rejects), the caller receives exactly the fixed not-authenticated
  envelope: the single segment "Not authenticated. Please use the 'authenticate' tool first."
  after the cross mark, with the error flag set. The state is left as it was, so no client was
  built and no client operation was called.
\<close>

theorem not_authenticated_envelope:
  assumes "reachable s" and "authInstance s = None" and "\<not> isAuthenticated (disk s)"
    and "requires_auth name"
  shows "call_tool ext name args s = (Some NOT_AUTHENTICATED_RESPONSE, s) \<and>
         NOT_AUTHENTICATED_RESPONSE =
           \<lparr>content = [cross_mark @ '' Not authenticated. Please use the 'authenticate' tool first.''],
            isError = Some True\<rparr>"
proof -
  from assms(4) obtain kind schema where r: "map_of routes name = Some (ServiceTool kind schema)"
    by (auto simp: requires_auth_def split: option.splits route.splits)
  have c: "cached kind s = None"
    using reachable_coherent [OF assms(1)] assms(2) by (rule coherent_cached)
  have e: "ensureAuth ext s = (Raises (ErrorObj ''NOT_AUTHENTICATED''), s)"
    using assms(2,3) by (simp add: ensureAuth_def)
  have g: "getService ext kind s = (Raises (ErrorObj ''NOT_AUTHENTICATED''), s)"
    by (simp add: getService_def c e)
  have "handleToolCall ext name args s = (Returns NOT_AUTHENTICATED_RESPONSE, s)"
    by (simp add: handleToolCall_def r withAuth_def g on_error_def)
  then show ?thesis
    by (simp add: call_tool_def NOT_AUTHENTICATED_RESPONSE_def createErrorResponse_def)
qed

theorem not_authenticated_envelope_witness:
  "reachable (initial no_files) \<and> authInstance (initial no_files) = None \<and>
   \<not> isAuthenticated (disk (initial no_files)) \<and> requires_auth ''send_email'' \<and>
   call_tool sample_external ''send_email'' (JObj [(''to'', JStr ''not-an-email'')]) (initial no_files)
     = (Some NOT_AUTHENTICATED_RESPONSE, initial no_files)"
proof -
  have a: "reachable (initial no_files)" by (rule reachable.start)
  have b: "authInstance (initial no_files) = None" by (simp add: initial_def)
  have c: "\<not> isAuthenticated (disk (initial no_files))"
    by (simp add: initial_def no_files_def isAuthenticated_def)
  have d: "requires_auth ''send_email''" by (simp add: requires_auth_def routes_def)
  from not_authenticated_envelope [OF a b c d] a b c d show ?thesis by simp
qed

subsection \<open>Envelopes are never mixed\<close>

lemma withAuth_envelope:
  assumes "withAuth ext kind (handler_body ext name schema args) s = (Returns r, s')"
  shows "\<exists>m. r = createErrorResponse m \<or> r = createSuccessResponse m"
proof -
  have body: "\<exists>m. r' = createSuccessResponse m"
    if "handler_body ext name schema args c s0 = (Returns r', s1)" for c s0 r' s1
    using that
    by (auto simp: handler_body_def call_service_def
             split: option.splits sum.splits completion.splits)
  have err: "r' = NOT_AUTHENTICATED_RESPONSE" if "on_error e s0 = (Returns r', s1)" for e s0 r' s1
    using that by (auto simp: on_error_def split: if_splits)
  obtain r0 s0 where g: "getService ext kind s = (r0, s0)" by (cases "getService ext kind s")
  show ?thesis
  proof (cases r0)
    case (Returns c)
    obtain r1 s1 where h: "handler_body ext name schema args c s0 = (r1, s1)"
      by (cases "handler_body ext name schema args c s0")
    show ?thesis
    proof (cases r1)
      case (Returns r')
      with assms g \<open>r0 = Returns c\<close> h have "r = r'" by (simp add: withAuth_def)
      with body h Returns show ?thesis by blast
    next
      case (Raises e)
      with assms g \<open>r0 = Returns c\<close> h have "on_error e s1 = (Returns r, s')"
        by (simp add: withAuth_def)
      from err [OF this] show ?thesis by (auto simp: NOT_AUTHENTICATED_RESPONSE_def)
    next
      case Pending
      with assms g \<open>r0 = Returns c\<close> h show ?thesis by (simp add: withAuth_def)
    qed
  next
    case (Raises e)
    with assms g have "on_error e s0 = (Returns r, s')" by (simp add: withAuth_def)
    from err [OF this] show ?thesis by (auto simp: NOT_AUTHENTICATED_RESPONSE_def)
  next
    case Pending
    with assms g show ?thesis by (simp add: withAuth_def)
  qed
qed

lemma handleToolCall_envelope:
  assumes "handleToolCall ext name args s = (Returns r, s')"
  shows "\<exists>m. r = createErrorResponse m \<or> r = createSuccessResponse m"
proof (cases "map_of routes name")
  case None
  with assms show ?thesis by (auto simp: handleToolCall_def)
next
  case (Some rt)
  show ?thesis
  proof (cases rt)
    case AuthStatus
    with assms Some show ?thesis by (auto simp: handleToolCall_def handleAuthStatus_def)
  next
    case Authenticate
    with assms Some show ?thesis
      by (auto simp: handleToolCall_def handleAuthenticate_def split: prod.splits completion.splits)
  next
    case (ServiceTool kind schema)
    with assms Some show ?thesis by (auto simp: handleToolCall_def dest: withAuth_envelope)
  qed
qed

lemma call_tool_envelope:
  assumes "call_tool ext name args s = (Some r, s')"
  shows "\<exists>m. r = createErrorResponse m \<or> r = createSuccessResponse m"
proof -
  obtain r0 s0 where h: "handleToolCall ext name args s = (r0, s0)"
    by (cases "handleToolCall ext name args s")
  show ?thesis
  proof (cases r0)
    case (Returns r')
    with assms h have "r = r'" by (simp add: call_tool_def)
    with handleToolCall_envelope h Returns show ?thesis by blast
  next
    case (Raises e)
    with assms h show ?thesis by (auto simp: call_tool_def)
  next
    case Pending
    with assms h show ?thesis by (simp add: call_tool_def)
  qed
qed

text \<open>
  Claim C6. Every response the dispatcher produces, for any tool name, any arguments and any
  behaviour of the external calls, is of one of two kinds. Either its error flag is set and it
  carries exactly one text segment, or it carries one or more segments (here always one) and
  has no error flag at all. No response is a mixture of the two.
\<close>

theorem envelope_consistent:
  assumes "call_tool ext name args s = (Some r, s')"
  shows "if isError r = Some True then length (content r) = 1
         else isError r = None \<and> 1 \<le> length (content r)"
  using call_tool_envelope [OF assms]
  by (auto simp: createErrorResponse_def createSuccessResponse_def)

theorem envelope_consistent_witness:
  "call_tool sample_external ''list_emails'' (JObj []) (initial service_account_files) =
     (Some (createSuccessResponse ''done''),
      (initial service_account_files)
        \<lparr>authInstance := Some (ServiceAccountAuth ''bot@project.iam.gserviceaccount.com''),
         gmailService := Some (ServiceAccountAuth ''bot@project.iam.gserviceaccount.com''),
         invoked := [(''list_emails'', JObj [(''limit'', JNum 10)])]\<rparr>) \<and>
   isError (createSuccessResponse ''done'') = None \<and>
   1 \<le> length (content (createSuccessResponse ''done''))"
proof -
  have c: "call_tool sample_external ''list_emails'' (JObj []) (initial service_account_files) =
     (Some (createSuccessResponse ''done''),
      (initial service_account_files)
        \<lparr>authInstance := Some (ServiceAccountAuth ''bot@project.iam.gserviceaccount.com''),
         gmailService := Some (ServiceAccountAuth ''bot@project.iam.gserviceaccount.com''),
         invoked := [(''list_emails'', JObj [(''limit'', JNum 10)])]\<rparr>)"
    by (simp add: call_tool_def handleToolCall_def routes_def withAuth_def getService_def
        ensureAuth_def isAuthenticated_def authenticate_def initial_def service_account_files_def
        handler_body_def validateInput_def safeParse_def object_issues_def object_output_def
        ListEmailsSchema_def limit_field_def field_def is_integer_def call_service_def
        sample_external_def)
  from envelope_consistent [OF c] c show ?thesis by (simp add: createSuccessResponse_def)
qed

subsection \<open>The authentication tools\<close>

text \<open>
  Claim C8. The \<open>auth_status\<close> tool answers with a success envelope whose text is
  \<open>getAuthStatus\<close> of the credentials file and the token file, and leaves the whole state as it
  found it. So two calls that see the same two files, whatever their arguments and whatever
  the rest of the state is, return the same status text.
\<close>

theorem auth_status_idempotent:
  assumes "disk s' = disk s"
  shows "call_tool ext ''auth_status'' args s =
           (Some (createSuccessResponse (getAuthStatus (disk s))), s) \<and>
         fst (call_tool ext' ''auth_status'' args' s') = fst (call_tool ext ''auth_status'' args s)"
  using assms
  by (simp add: call_tool_def handleToolCall_def routes_def handleAuthStatus_def)

theorem auth_status_idempotent_witness:
  "disk (snd (call_tool sample_external ''auth_status'' JUndefined (initial oauth_files))) =
     disk (initial oauth_files) \<and>
   fst (call_tool sample_external ''auth_status'' (JObj [])
         (snd (call_tool sample_external ''auth_status'' JUndefined (initial oauth_files)))) =
     fst (call_tool sample_external ''auth_status'' JUndefined (initial oauth_files)) \<and>
   call_tool sample_external ''auth_status'' JUndefined (initial oauth_files) =
     (Some (createSuccessResponse (warning_sign @
        '' OAuth credentials found but not authenticated. Use the 'authenticate' tool to sign in.'')),
      initial oauth_files)"
proof -
  have d: "disk (snd (call_tool sample_external ''auth_status'' JUndefined (initial oauth_files))) =
     disk (initial oauth_files)"
    by (simp add: call_tool_def handleToolCall_def routes_def handleAuthStatus_def)
  have g: "getAuthStatus (disk (initial oauth_files)) = warning_sign @
        '' OAuth credentials found but not authenticated. Use the 'authenticate' tool to sign in.''"
    by (simp add: getAuthStatus_def initial_def oauth_files_def)
  note t = auth_status_idempotent [OF d, of sample_external JUndefined sample_external "JObj []"]
  from t have c: "call_tool sample_external ''auth_status'' JUndefined (initial oauth_files) =
      (Some (createSuccessResponse (getAuthStatus (disk (initial oauth_files)))), initial oauth_files)"
    by (rule conjunct1)
  from t have i: "fst (call_tool sample_external ''auth_status'' (JObj [])
         (snd (call_tool sample_external ''auth_status'' JUndefined (initial oauth_files)))) =
     fst (call_tool sample_external ''auth_status'' JUndefined (initial oauth_files))"
    by (rule conjunct2)
  from c have c': "call_tool sample_external ''auth_status'' JUndefined (initial oauth_files) =
     (Some (createSuccessResponse (warning_sign @
        '' OAuth credentials found but not authenticated. Use the 'authenticate' tool to sign in.'')),
      initial oauth_files)"
    by (simp only: g)
  show ?thesis by (intro conjI) (rule d, rule i, rule c')
qed

text \<open>
  Claim C9. When \<open>authenticate()\<close> throws, the handler of the \<open>authenticate\<close> tool returns
  (it does not throw) the error envelope "Authentication failed: " followed by the message of
  what was thrown, after the cross mark, and the state is unchanged: the cached credential and
  the three clients are the ones from before. If a call of the tool changes any of these four,
  then \<open>authenticate()\<close> has returned a credential and all four now hold it.
\<close>

theorem authenticate_failure_keeps_cache:
  assumes "handleToolCall ext ''authenticate'' args s = (r, s')"
  shows "(\<forall>e. fst (authenticate ext (disk s)) = Raises e \<longrightarrow>
            r = Returns (createErrorResponse (cross_mark @ '' Authentication failed: '' @ error_message e))
            \<and> s' = s) \<and>
         ((authInstance s', meetService s', gmailService s', docsService s') \<noteq>
          (authInstance s, meetService s, gmailService s, docsService s) \<longrightarrow>
            (\<exists>a. fst (authenticate ext (disk s)) = Returns a \<and> authInstance s' = Some a \<and>
                 meetService s' = Some a \<and> gmailService s' = Some a \<and> docsService s' = Some a))"
proof -
  obtain out f where a: "authenticate ext (disk s) = (out, f)" by (cases "authenticate ext (disk s)")
  have h: "handleToolCall ext ''authenticate'' args s = handleAuthenticate ext s"
    by (simp add: handleToolCall_def routes_def)
  show ?thesis
  proof (cases out)
    case (Returns c)
    with assms a h show ?thesis by (auto simp: handleAuthenticate_def)
  next
    case (Raises e)
    with a have "f = disk s" by (auto dest: authenticate_raises_disk)
    with assms a h Raises show ?thesis by (auto simp: handleAuthenticate_def)
  next
    case Pending
    with assms a h show ?thesis by (auto simp: handleAuthenticate_def)
  qed
qed

theorem authenticate_failure_keeps_cache_witness:
  "handleToolCall sample_external ''authenticate'' JUndefined (initial no_files) =
     (Returns (createErrorResponse (cross_mark @ '' Authentication failed: '' @
        credentials_not_found ''/srv/credentials.json'')), initial no_files) \<and>
   fst (authenticate sample_external (disk (initial no_files))) =
     Raises (ErrorObj (credentials_not_found ''/srv/credentials.json''))"
proof -
  obtain r s' where c: "handleToolCall sample_external ''authenticate'' JUndefined (initial no_files) = (r, s')"
    by (cases "handleToolCall sample_external ''authenticate'' JUndefined (initial no_files)")
  have a: "fst (authenticate sample_external (disk (initial no_files))) =
     Raises (ErrorObj (credentials_not_found ''/srv/credentials.json''))"
    by (simp add: authenticate_def initial_def no_files_def sample_external_def)
  from authenticate_failure_keeps_cache [OF c] a c show ?thesis by simp
qed

subsection \<open>Validation\<close>

text \<open>
  A request that carries no arguments at all is not an object, and every schema rejects it,
  also one whose fields are all optional.
\<close>

lemma missing_arguments_rejected:
  "validateInput em schema JUndefined = Inl (ErrorObj ''Invalid input: : Required'')"
  by (simp add: validateInput_def safeParse_def invalid_type_def format_issue_def)

lemma limit_only_schema:
  "validateInput em [limit_field hi] (JObj kvs) =
     (case parse_field em (snd (limit_field hi)) [''limit''] (field kvs ''limit'') of
        [] \<Rightarrow> Inr (JObj [(''limit'', output_field (snd (limit_field hi)) (field kvs ''limit''))])
      | e # es \<Rightarrow> Inl (ErrorObj (''Invalid input: '' @ join '', '' (map format_issue (e # es)))))"
  by (simp add: validateInput_def safeParse_def object_issues_def object_output_def limit_field_def
           split: list.splits)

lemma limit_field_key: "fst (limit_field hi) = ''limit''"
  by (simp add: limit_field_def)

lemma limit_issues:
  "parse_field em (snd (limit_field hi)) p (JNum x) = [] \<longleftrightarrow>
     is_integer x \<and> 1 \<le> x \<and> x \<le> of_int hi"
  by (auto simp: limit_field_def)

lemma limit_default: "parse_field em (snd (limit_field hi)) p JUndefined = [] \<longleftrightarrow> 10 \<le> hi"
  by (auto simp: limit_field_def is_integer_def)

lemma tool_schema_limit:
  "tool_schema ''list_conferences'' = [limit_field 100]"
  "tool_schema ''list_upcoming_meetings'' = [limit_field 100]"
  "tool_schema ''list_past_meetings'' = [limit_field 100]"
  "tool_schema ''list_emails'' = [limit_field 50]"
  "tool_schema ''list_docs'' = [limit_field 50]"
  "tool_schema ''search_emails'' =
     [(''query'', Req (ZString (Some ''Search query is required''))), limit_field 50]"
  "tool_schema ''search_docs'' =
     [(''query'', Req (ZString (Some ''Search query is required''))), limit_field 50]"
  by (simp_all add: tool_schema_def routes_def ListConferencesSchema_def ListMeetingsSchema_def
        ListEmailsSchema_def ListDocsSchema_def SearchEmailsSchema_def SearchDocsSchema_def)

lemma limit_schema_rejects:
  assumes "field kvs ''limit'' = JNum x" and "\<not> (is_integer x \<and> 1 \<le> x \<and> x \<le> of_int hi)"
  shows "isl (validateInput em [limit_field hi] (JObj kvs))"
    and "isl (validateInput em [(''query'', Req (ZString (Some m))), limit_field hi] (JObj kvs))"
proof -
  from assms limit_issues [of em hi "[''limit'']" x]
  have n: "parse_field em (snd (limit_field hi)) [''limit''] (field kvs ''limit'') \<noteq> []" by simp
  then show "isl (validateInput em [limit_field hi] (JObj kvs))"
    by (simp add: limit_only_schema split: list.splits)
  from n show "isl (validateInput em [(''query'', Req (ZString (Some m))), limit_field hi] (JObj kvs))"
    by (simp add: validateInput_def safeParse_def object_issues_def case_prod_beta limit_field_key)
qed

lemma limit_schema_accepts:
  assumes "parse_field em (snd (limit_field hi)) [''limit''] (field kvs ''limit'') = []"
  shows "validateInput em [limit_field hi] (JObj kvs) =
           Inr (JObj [(''limit'', output_field (snd (limit_field hi)) (field kvs ''limit''))])"
    and "nonempty_string (field kvs ''query'') \<Longrightarrow>
         validateInput em [(''query'', Req (ZString (Some m))), limit_field hi] (JObj kvs) =
           Inr (JObj [(''query'', field kvs ''query''),
                      (''limit'', output_field (snd (limit_field hi)) (field kvs ''limit''))])"
proof -
  from assms show "validateInput em [limit_field hi] (JObj kvs) =
           Inr (JObj [(''limit'', output_field (snd (limit_field hi)) (field kvs ''limit''))])"
    by (simp add: limit_only_schema)
  assume "nonempty_string (field kvs ''query'')"
  then obtain q where q: "field kvs ''query'' = JStr q" "q \<noteq> []"
    by (cases "field kvs ''query''") auto
  have o: "output_field (snd (limit_field hi)) (field kvs ''limit'') \<noteq> JUndefined"
    by (simp add: limit_field_def)
  from assms q o show "validateInput em [(''query'', Req (ZString (Some m))), limit_field hi] (JObj kvs) =
           Inr (JObj [(''query'', field kvs ''query''),
                      (''limit'', output_field (snd (limit_field hi)) (field kvs ''limit''))])"
    by (simp add: validateInput_def safeParse_def object_issues_def object_output_def
          case_prod_beta limit_field_key)
qed

text \<open>
  Claim C4, as amended. Take any of the seven tools with a result limit, with the maximum
  documented for it (100 for \<open>list_conferences\<close>, \<open>list_upcoming_meetings\<close> and
  \<open>list_past_meetings\<close>; 50 for \<open>list_emails\<close>, \<open>search_emails\<close>, \<open>list_docs\<close> and
  \<open>search_docs\<close>), and any arguments object. A \<open>limit\<close> that is a number above the maximum,
  below 1 or not an integer makes validation fail. With no \<open>limit\<close> in the object (and, for the
  two search tools, a non-empty \<open>query\<close>) validation succeeds and the validated record has
  \<open>limit = 10\<close>. An integer \<open>limit\<close> from 1 to the maximum is accepted as it is. A call that
  carries no arguments object at all fails validation with "Invalid input: : Required".
\<close>

theorem limit_validation:
  assumes "(name, hi) \<in> set declared_limit"
  shows "(\<forall>x. field kvs ''limit'' = JNum x \<and> (of_int hi < x \<or> x < 1 \<or> \<not> is_integer x) \<longrightarrow>
            isl (validateInput em (tool_schema name) (JObj kvs))) \<and>
         (field kvs ''limit'' = JUndefined \<and> (takes_query name \<longrightarrow> nonempty_string (field kvs ''query''))
            \<longrightarrow> (\<exists>out. validateInput em (tool_schema name) (JObj kvs) = Inr (JObj out) \<and>
                      field out ''limit'' = JNum 10)) \<and>
         (\<forall>n. field kvs ''limit'' = JNum (of_int n) \<and> 1 \<le> n \<and> n \<le> hi \<and>
              (takes_query name \<longrightarrow> nonempty_string (field kvs ''query''))
            \<longrightarrow> (\<exists>out. validateInput em (tool_schema name) (JObj kvs) = Inr (JObj out) \<and>
                      field out ''limit'' = JNum (of_int n))) \<and>
         validateInput em (tool_schema name) JUndefined = Inl (ErrorObj ''Invalid input: : Required'')"
proof -
  have hi: "10 \<le> hi" using assms by (auto simp: declared_limit_def)
  have 4: "validateInput em (tool_schema name) JUndefined = Inl (ErrorObj ''Invalid input: : Required'')"
    by (rule missing_arguments_rejected)
  consider (plain) "tool_schema name = [limit_field hi]" "\<not> takes_query name"
    | (query) "tool_schema name =
        [(''query'', Req (ZString (Some ''Search query is required''))), limit_field hi]"
        "takes_query name"
    using assms by (auto simp: declared_limit_def tool_schema_limit takes_query_def)
  then show ?thesis
  proof cases
    case plain
    have 1: "isl (validateInput em (tool_schema name) (JObj kvs))"
      if "field kvs ''limit'' = JNum x" "of_int hi < x \<or> x < 1 \<or> \<not> is_integer x" for x
      using limit_schema_rejects(1) [of kvs x hi em] that plain by auto
    have 2: "\<exists>out. validateInput em (tool_schema name) (JObj kvs) = Inr (JObj out) \<and>
                      field out ''limit'' = JNum 10"
      if "field kvs ''limit'' = JUndefined"
      using limit_schema_accepts(1) [of em hi kvs] limit_default [of em hi "[''limit'']"] hi that plain
      by (simp add: field_def limit_field_def)
    have 3: "\<exists>out. validateInput em (tool_schema name) (JObj kvs) = Inr (JObj out) \<and>
                      field out ''limit'' = JNum (of_int n)"
      if "field kvs ''limit'' = JNum (of_int n)" "1 \<le> n" "n \<le> hi" for n
      using limit_schema_accepts(1) [of em hi kvs] limit_issues [of em hi "[''limit'']" "of_int n"]
        that plain
      by (simp add: field_def limit_field_def is_integer_def)
    from 1 2 3 4 plain show ?thesis by blast
  next
    case query
    have 1: "isl (validateInput em (tool_schema name) (JObj kvs))"
      if "field kvs ''limit'' = JNum x" "of_int hi < x \<or> x < 1 \<or> \<not> is_integer x" for x
      using limit_schema_rejects(2) [of kvs x hi em] that query by auto
    have 2: "\<exists>out. validateInput em (tool_schema name) (JObj kvs) = Inr (JObj out) \<and>
                      field out ''limit'' = JNum 10"
      if "field kvs ''limit'' = JUndefined" "nonempty_string (field kvs ''query'')"
      using limit_schema_accepts(2) [of em hi kvs] limit_default [of em hi "[''limit'']"] hi that query
      by (simp add: field_def limit_field_def)
    have 3: "\<exists>out. validateInput em (tool_schema name) (JObj kvs) = Inr (JObj out) \<and>
                      field out ''limit'' = JNum (of_int n)"
      if "field kvs ''limit'' = JNum (of_int n)" "1 \<le> n" "n \<le> hi" "nonempty_string (field kvs ''query'')" for n
      using limit_schema_accepts(2) [of em hi kvs] limit_issues [of em hi "[''limit'']" "of_int n"]
        that query
      by (simp add: field_def limit_field_def is_integer_def)
    from 1 2 3 4 query show ?thesis by blast
  qed
qed

theorem limit_validation_witness:
  "(''search_emails'', 50) \<in> set declared_limit \<and>
   isl (validateInput (\<lambda>s. True) (tool_schema ''search_emails'')
          (JObj [(''query'', JStr ''from:boss''), (''limit'', JNum 51)])) \<and>
   isl (validateInput (\<lambda>s. True) (tool_schema ''search_emails'')
          (JObj [(''query'', JStr ''from:boss''), (''limit'', JNum (5 / 2))])) \<and>
   (\<exists>out. validateInput (\<lambda>s. True) (tool_schema ''search_emails'')
            (JObj [(''query'', JStr ''from:boss'')]) = Inr (JObj out) \<and>
          field out ''limit'' = JNum 10) \<and>
   (\<exists>out. validateInput (\<lambda>s. True) (tool_schema ''search_emails'')
            (JObj [(''query'', JStr ''from:boss''), (''limit'', JNum (of_int 50))]) = Inr (JObj out) \<and>
          field out ''limit'' = JNum (of_int 50))"
proof -
  have m: "(''search_emails'', 50) \<in> set declared_limit" by (simp add: declared_limit_def)
  have q: "takes_query ''search_emails''" by (simp add: takes_query_def)
  have "\<lfloor>5 / 2 :: rat\<rfloor> = 2" by (rule floor_unique) simp_all
  then have f: "\<not> is_integer (5 / 2)" by (simp add: is_integer_def)
  have 1: "isl (validateInput (\<lambda>s. True) (tool_schema ''search_emails'')
          (JObj [(''query'', JStr ''from:boss''), (''limit'', JNum 51)]))"
    using limit_validation [OF m, of "[(''query'', JStr ''from:boss''), (''limit'', JNum 51)]" "\<lambda>s. True",
        THEN conjunct1, rule_format, of 51]
    by (simp add: field_def)
  have 2: "isl (validateInput (\<lambda>s. True) (tool_schema ''search_emails'')
          (JObj [(''query'', JStr ''from:boss''), (''limit'', JNum (5 / 2))]))"
    using limit_validation [OF m, of "[(''query'', JStr ''from:boss''), (''limit'', JNum (5 / 2))]" "\<lambda>s. True",
        THEN conjunct1, rule_format, of "5 / 2"] f
    by (simp add: field_def)
  have 3: "\<exists>out. validateInput (\<lambda>s. True) (tool_schema ''search_emails'')
            (JObj [(''query'', JStr ''from:boss'')]) = Inr (JObj out) \<and>
          field out ''limit'' = JNum 10"
    using limit_validation [OF m, of "[(''query'', JStr ''from:boss'')]" "\<lambda>s. True",
        THEN conjunct2, THEN conjunct1] q
    by (simp add: field_def)
  have 4: "\<exists>out. validateInput (\<lambda>s. True) (tool_schema ''search_emails'')
            (JObj [(''query'', JStr ''from:boss''), (''limit'', JNum (of_int 50))]) = Inr (JObj out) \<and>
          field out ''limit'' = JNum (of_int 50)"
    using limit_validation [OF m, of "[(''query'', JStr ''from:boss''), (''limit'', JNum (of_int 50))]" "\<lambda>s. True",
        THEN conjunct2, THEN conjunct2, THEN conjunct1, rule_format, of 50] q
    by (simp add: field_def)
  from m 1 2 3 4 show ?thesis by blast
qed

text \<open>
  The claim as it was stated promises \<open>limit = 10\<close> whenever no limit is supplied. A call of
  \<open>list_emails\<close> without arguments supplies none, and is rejected: the schema is an object
  schema, and the caller receives an error envelope. A call of \<open>search_emails\<close> with an empty
  arguments object supplies none either, and is rejected for its missing \<open>query\<close>.
\<close>

theorem limit_validation_counterexample:
  "validateInput (email_ok sample_external) (tool_schema ''list_emails'') JUndefined =
     Inl (ErrorObj ''Invalid input: : Required'') \<and>
   call_tool sample_external ''list_emails'' JUndefined (initial service_account_files) =
     (Some (createErrorResponse ''Error: Invalid input: : Required''),
      (initial service_account_files)
        \<lparr>authInstance := Some (ServiceAccountAuth ''bot@project.iam.gserviceaccount.com''),
         gmailService := Some (ServiceAccountAuth ''bot@project.iam.gserviceaccount.com'')\<rparr>) \<and>
   validateInput (email_ok sample_external) (tool_schema ''search_emails'') (JObj []) =
     Inl (ErrorObj ''Invalid input: query: Required'')"
proof -
  have 1: "validateInput (email_ok sample_external) (tool_schema ''list_emails'') JUndefined =
     Inl (ErrorObj ''Invalid input: : Required'')"
    by (rule missing_arguments_rejected)
  have 2: "call_tool sample_external ''list_emails'' JUndefined (initial service_account_files) =
     (Some (createErrorResponse ''Error: Invalid input: : Required''),
      (initial service_account_files)
        \<lparr>authInstance := Some (ServiceAccountAuth ''bot@project.iam.gserviceaccount.com''),
         gmailService := Some (ServiceAccountAuth ''bot@project.iam.gserviceaccount.com'')\<rparr>)"
    by (simp add: call_tool_def handleToolCall_def routes_def withAuth_def getService_def
        ensureAuth_def isAuthenticated_def authenticate_def initial_def service_account_files_def
        handler_body_def missing_arguments_rejected on_error_def)
  have 3: "validateInput (email_ok sample_external) (tool_schema ''search_emails'') (JObj []) =
     Inl (ErrorObj ''Invalid input: query: Required'')"
    by (simp add: tool_schema_limit validateInput_def safeParse_def object_issues_def
        limit_field_def field_def invalid_type_def format_issue_def is_integer_def)
  from 1 2 3 show ?thesis by (intro conjI)
qed

lemma join_Cons: "join sep (x # xs) = x @ (if xs = [] then [] else sep @ join sep xs)"
  by (cases xs) simp_all

lemma to_issue_first:
  assumes "\<not> (\<exists>t. v = JStr t \<and> em t)"
  shows "\<exists>m es. parse_field em (Req (ZEmail ''Valid email address required'')) [''to''] v
                  = ([''to''], m) # es \<and>
                (\<forall>t. v = JStr t \<longrightarrow> m = ''Valid email address required'')"
  using assms by (cases v) (auto simp: invalid_type_def)

lemma send_email_invalid_to:
  assumes "\<not> (\<exists>t. field kvs ''to'' = JStr t \<and> em t)"
  shows "\<exists>m rest. validateInput em SendEmailSchema (JObj kvs) =
                    Inl (ErrorObj (''Invalid input: to: '' @ m @ rest)) \<and>
                  (\<forall>t. field kvs ''to'' = JStr t \<longrightarrow> m = ''Valid email address required'')"
proof -
  from to_issue_first [OF assms] obtain m es
    where p: "parse_field em (Req (ZEmail ''Valid email address required'')) [''to''] (field kvs ''to'')
                = ([''to''], m) # es"
      and m: "\<forall>t. field kvs ''to'' = JStr t \<longrightarrow> m = ''Valid email address required''"
    by blast
  obtain more where i: "object_issues em SendEmailSchema kvs = ([''to''], m) # more"
    using p by (simp add: object_issues_def SendEmailSchema_def)
  have "validateInput em SendEmailSchema (JObj kvs) =
          Inl (ErrorObj (''Invalid input: to: '' @ m @
                 (if more = [] then [] else '', '' @ join '', '' (map format_issue more))))"
    by (simp add: validateInput_def safeParse_def i join_Cons format_issue_def)
  with m show ?thesis by blast
qed

text \<open>
  Claim C5. Take a \<open>send_email\<close> call for which the mail client is available (it is cached, or
  is built from the credential), with an argument object whose \<open>to\<close> is not a string that the
  e-mail pattern accepts. Then the caller receives an error envelope whose text is "Error: "
  followed by the validation message, and that message starts with "Invalid input: to: " and
  the reason for \<open>to\<close>, which is "Valid email address required" when \<open>to\<close> is a string; the
  issues of other fields follow. No operation of the mail client is called.
\<close>

theorem send_email_invalid_recipient:
  assumes "getService ext Gmail s = (Returns client, s1)"
    and "\<not> (\<exists>t. field kvs ''to'' = JStr t \<and> email_ok ext t)"
  shows "\<exists>m rest.
           validateInput (email_ok ext) SendEmailSchema (JObj kvs) =
             Inl (ErrorObj (''Invalid input: to: '' @ m @ rest)) \<and>
           (\<forall>t. field kvs ''to'' = JStr t \<longrightarrow> m = ''Valid email address required'') \<and>
           call_tool ext ''send_email'' (JObj kvs) s =
             (Some (createErrorResponse (''Error: '' @ ''Invalid input: to: '' @ m @ rest)), s1) \<and>
           invoked s1 = invoked s"
proof -
  from send_email_invalid_to [OF assms(2)] obtain m rest
    where v: "validateInput (email_ok ext) SendEmailSchema (JObj kvs) =
                Inl (ErrorObj (''Invalid input: to: '' @ m @ rest))"
      and m: "\<forall>t. field kvs ''to'' = JStr t \<longrightarrow> m = ''Valid email address required''"
    by blast
  define msg where "msg = ''Invalid input: to: '' @ m @ rest"
  have n: "msg \<noteq> ''NOT_AUTHENTICATED''" by (simp add: msg_def)
  have r: "map_of routes ''send_email'' = Some (ServiceTool Gmail (Some SendEmailSchema))"
    by (simp add: routes_def)
  have b: "handler_body ext ''send_email'' (Some SendEmailSchema) (JObj kvs) client s1 =
             (Raises (ErrorObj msg), s1)"
    by (simp add: handler_body_def v msg_def)
  have h: "handleToolCall ext ''send_email'' (JObj kvs) s = (Raises (ErrorObj msg), s1)"
    by (simp add: handleToolCall_def r withAuth_def assms(1) b on_error_def n)
  have "call_tool ext ''send_email'' (JObj kvs) s =
             (Some (createErrorResponse (''Error: '' @ msg)), s1)"
    by (simp add: call_tool_def h)
  then have c: "call_tool ext ''send_email'' (JObj kvs) s =
             (Some (createErrorResponse (''Error: '' @ ''Invalid input: to: '' @ m @ rest)), s1)"
    by (simp only: msg_def)
  have i: "invoked s1 = invoked s"
    using assms(1)
    by (auto simp: getService_def ensureAuth_def
             split: option.splits if_splits prod.splits completion.splits)
  from v m c i show ?thesis by blast
qed

theorem send_email_invalid_recipient_witness:
  "getService sample_external Gmail (initial service_account_files) =
     (Returns (ServiceAccountAuth ''bot@project.iam.gserviceaccount.com''),
      (initial service_account_files)
        \<lparr>authInstance := Some (ServiceAccountAuth ''bot@project.iam.gserviceaccount.com''),
         gmailService := Some (ServiceAccountAuth ''bot@project.iam.gserviceaccount.com'')\<rparr>) \<and>
   \<not> email_ok sample_external ''not-an-email'' \<and>
   call_tool sample_external ''send_email''
       (JObj [(''to'', JStr ''not-an-email''), (''subject'', JStr ''Hi''), (''body'', JStr ''Hello'')])
       (initial service_account_files) =
     (Some (createErrorResponse ''Error: Invalid input: to: Valid email address required''),
      (initial service_account_files)
        \<lparr>authInstance := Some (ServiceAccountAuth ''bot@project.iam.gserviceaccount.com''),
         gmailService := Some (ServiceAccountAuth ''bot@project.iam.gserviceaccount.com'')\<rparr>)"
proof -
  let ?kvs = "[(''to'', JStr ''not-an-email''), (''subject'', JStr ''Hi''), (''body'', JStr ''Hello'')]"
  let ?s1 = "(initial service_account_files)
        \<lparr>authInstance := Some (ServiceAccountAuth ''bot@project.iam.gserviceaccount.com''),
         gmailService := Some (ServiceAccountAuth ''bot@project.iam.gserviceaccount.com'')\<rparr>"
  have g: "getService sample_external Gmail (initial service_account_files) =
     (Returns (ServiceAccountAuth ''bot@project.iam.gserviceaccount.com''), ?s1)"
    by (simp add: getService_def ensureAuth_def isAuthenticated_def authenticate_def initial_def
          service_account_files_def)
  have e: "\<not> email_ok sample_external ''not-an-email''" by (simp add: sample_external_def)
  then have n: "\<not> (\<exists>t. field ?kvs ''to'' = JStr t \<and> email_ok sample_external t)"
    by (simp add: field_def)
  have v: "validateInput (email_ok sample_external) SendEmailSchema (JObj ?kvs) =
             Inl (ErrorObj ''Invalid input: to: Valid email address required'')"
    using e by (simp add: validateInput_def safeParse_def object_issues_def SendEmailSchema_def
                  field_def format_issue_def)
  from send_email_invalid_recipient [OF g n] obtain m rest
    where 1: "validateInput (email_ok sample_external) SendEmailSchema (JObj ?kvs) =
                Inl (ErrorObj (''Invalid input: to: '' @ m @ rest))"
      and 2: "call_tool sample_external ''send_email'' (JObj ?kvs) (initial service_account_files) =
                (Some (createErrorResponse (''Error: '' @ ''Invalid input: to: '' @ m @ rest)), ?s1)"
    by blast
  from 1 v have "''Invalid input: to: '' @ m @ rest = ''Invalid input: to: Valid email address required''"
    by simp
  with 2 have "call_tool sample_external ''send_email'' (JObj ?kvs) (initial service_account_files) =
     (Some (createErrorResponse ''Error: Invalid input: to: Valid email address required''), ?s1)"
    by simp
  with g e show ?thesis by blast
qed

subsection \<open>Listing meetings\<close>





subsection \<open>Listing and searching mail\<close>

text \<open>
  Claim C10. \<open>list_emails\<close> lists with no query and the label filter \<open>["INBOX"]\<close>, the default
  of the Gmail client; \<open>search_emails\<close> lists with its query and an empty label filter. Both
  pass the validated limit as \<open>maxResults\<close>, and both are the same routine applied to their
  request: list the matching ids, then fetch each message in full. So whenever the service
  answers the two requests alike, the two calls return alike.
\<close>

theorem list_and_search_emails:
  "list_emails_call g limit =
     list_and_fetch g \<lparr>list_userId = ''me'', list_q = None, list_maxResults = limit,
                       list_labelIds = [''INBOX'']\<rparr> \<and>
   search_emails_call g query limit =
     list_and_fetch g \<lparr>list_userId = ''me'', list_q = Some query, list_maxResults = limit,
                       list_labelIds = []\<rparr> \<and>
   (messages_list g (list_params None (Some limit) None) =
      messages_list g (list_params (Some query) (Some limit) (Some []))
    \<longrightarrow> list_emails_call g limit = search_emails_call g query limit)"
  by (simp add: list_emails_call_def search_emails_call_def searchEmails_def listMessages_def
        list_and_fetch_def list_params_def gmail_defaultLabels_def)

theorem list_and_search_emails_witness:
  "list_emails_call sample_gmail 5 = Returns [\<lparr>message_id = ''m1'', labelIds = [''INBOX'']\<rparr>] \<and>
   search_emails_call sample_gmail ''report'' 5 =
     Returns [\<lparr>message_id = ''m1'', labelIds = [''INBOX'']\<rparr>, \<lparr>message_id = ''m2'', labelIds = []\<rparr>]"
proof -
  note t = list_and_search_emails [of sample_gmail 5 "''report''"]
  have 1: "list_and_fetch sample_gmail \<lparr>list_userId = ''me'', list_q = None, list_maxResults = 5,
                       list_labelIds = [''INBOX'']\<rparr> =
           Returns [\<lparr>message_id = ''m1'', labelIds = [''INBOX'']\<rparr>]"
    by (simp add: list_and_fetch_def sample_gmail_def or_empty_def getMessage_def promise_all_def)
  have 2: "list_and_fetch sample_gmail \<lparr>list_userId = ''me'', list_q = Some ''report'',
                       list_maxResults = 5, list_labelIds = []\<rparr> =
           Returns [\<lparr>message_id = ''m1'', labelIds = [''INBOX'']\<rparr>, \<lparr>message_id = ''m2'', labelIds = []\<rparr>]"
    by (simp add: list_and_fetch_def sample_gmail_def or_empty_def getMessage_def promise_all_def)
  from t 1 have a: "list_emails_call sample_gmail 5 = Returns [\<lparr>message_id = ''m1'', labelIds = [''INBOX'']\<rparr>]"
    by (simp only:)
  from t 2 have b: "search_emails_call sample_gmail ''report'' 5 =
     Returns [\<lparr>message_id = ''m1'', labelIds = [''INBOX'']\<rparr>, \<lparr>message_id = ''m2'', labelIds = []\<rparr>]"
    by (simp only:)
  from a b show ?thesis by (rule conjI)
qed

subsection \<open>The raw message of send and draft\<close>

lemma of_char_less_256: "of_char (c :: char) < (256 :: nat)"
proof -
  have "(of_char c :: nat) = of_char c mod 256" by (simp only: of_char_mod_256)
  also have "\<dots> < 256" by simp
  finally show ?thesis .
qed

lemma sextet_arith:
  fixes x y z :: nat
  assumes "x < 256" "y < 256" "z < 256"
  shows "x div 4 < 64" "x mod 4 * 16 < 64" "x mod 4 * 16 + y div 16 < 64"
    "y mod 16 * 4 < 64" "y mod 16 * 4 + z div 64 < 64" "z mod 64 < 64"
proof -
  have x4: "x mod 4 < 4" and y16: "y mod 16 < 16" by simp_all
  have xd: "x div 4 < 64" using assms(1) by (simp add: less_mult_imp_div_less)
  have yd: "y div 16 < 16" using assms(2) by (simp add: less_mult_imp_div_less)
  have zd: "z div 64 < 4" using assms(3) by (simp add: less_mult_imp_div_less)
  show "x div 4 < 64" by (rule xd)
  show "x mod 4 * 16 < 64" using x4 by linarith
  show "x mod 4 * 16 + y div 16 < 64" using x4 yd by linarith
  show "y mod 16 * 4 < 64" using y16 by linarith
  show "y mod 16 * 4 + z div 64 < 64" using y16 zd by linarith
  show "z mod 64 < 64" by simp
qed

lemma sextet_bounds:
  "of_char (a :: char) div 4 < (64 :: nat)"
  "of_char (a :: char) mod 4 * 16 < (64 :: nat)"
  "of_char (a :: char) mod 4 * 16 + of_char (b :: char) div 16 < (64 :: nat)"
  "of_char (b :: char) mod 16 * 4 < (64 :: nat)"
  "of_char (b :: char) mod 16 * 4 + of_char (c :: char) div 64 < (64 :: nat)"
  "of_char (c :: char) mod 64 < (64 :: nat)"
  using sextet_arith [OF of_char_less_256 [of a] of_char_less_256 [of b] of_char_less_256 [of c]]
  by blast+

lemma url_char_not_equals:
  assumes "n < 64"
  shows "b64url n \<noteq> CHR ''=''"
proof -
  have "n < length base64url_alphabet" using assms by (simp add: base64url_alphabet_def)
  then have "b64url n \<in> set base64url_alphabet" by (simp add: b64url_def)
  moreover have "CHR ''='' \<notin> set base64url_alphabet" by (simp add: base64url_alphabet_def)
  ultimately show ?thesis by metis
qed

lemma replace_twice:
  "replace_all (CHR ''/'') (CHR ''_'') (replace_all (CHR ''+'') (CHR ''-'') s) = map url_safe s"
  by (induction s) (simp_all add: replace_all_def url_safe_def)

lemma url_safe_alphabet: "map url_safe base64_alphabet = base64url_alphabet"
  by (simp add: base64_alphabet_def base64url_alphabet_def url_safe_def)

lemma url_safe_b64:
  assumes "n < 64"
  shows "url_safe (b64 n) = b64url n"
proof -
  have l: "n < length base64_alphabet" using assms by (simp add: base64_alphabet_def)
  have "b64url n = map url_safe base64_alphabet ! n"
    by (simp only: url_safe_alphabet b64url_def)
  also have "\<dots> = url_safe (base64_alphabet ! n)" using l by (rule nth_map)
  finally show ?thesis by (simp only: b64_def)
qed

lemma url_safe_equals: "url_safe (CHR ''='') = CHR ''=''"
  by (simp add: url_safe_def)

lemma padding_cases:
  "padding [] = []" "padding [a] = ''==''" "padding [a, b] = ''=''"
  "padding (a # b # c # rest) = padding rest"
proof -
  show "padding [] = []" by (simp add: padding_def)
  have "replicate 2 (CHR ''='') = ''==''" by (simp add: numeral_2_eq_2)
  then show "padding [a] = ''==''" by (simp add: padding_def)
  show "padding [a, b] = ''=''" by (simp add: padding_def)
  have "length (a # b # c # rest) = length rest + 3" by simp
  then have "length (a # b # c # rest) mod 3 = length rest mod 3" by (simp only: mod_add_self2)
  then show "padding (a # b # c # rest) = padding rest" by (simp only: padding_def)
qed

lemma replaced_base64:
  "replace_all (CHR ''/'') (CHR ''_'') (replace_all (CHR ''+'') (CHR ''-'') (base64 s)) =
     base64url_nopad s @ padding s"
  unfolding replace_twice
proof (induction s rule: base64.induct)
  case 1
  show ?case by (simp add: padding_cases)
next
  case (2 a)
  show ?case
    by (simp add: padding_cases url_safe_equals url_safe_b64 [OF sextet_bounds(1)]
          url_safe_b64 [OF sextet_bounds(2)])
next
  case (3 a b)
  show ?case
    by (simp add: padding_cases url_safe_equals url_safe_b64 [OF sextet_bounds(1)]
          url_safe_b64 [OF sextet_bounds(3)] url_safe_b64 [OF sextet_bounds(4)])
next
  case (4 a b c rest)
  then show ?case
    by (simp add: padding_cases url_safe_b64 [OF sextet_bounds(1)]
          url_safe_b64 [OF sextet_bounds(3)] url_safe_b64 [OF sextet_bounds(5)]
          url_safe_b64 [OF sextet_bounds(6)])
qed

lemma base64url_no_equals: "CHR ''='' \<notin> set (base64url_nopad s)"
proof (induction s rule: base64url_nopad.induct)
  case 1
  show ?case by simp
next
  case (2 a)
  show ?case
    using url_char_not_equals [OF sextet_bounds(1) [of a]] url_char_not_equals [OF sextet_bounds(2) [of a]]
    by (simp add: eq_commute)
next
  case (3 a b)
  show ?case
    using url_char_not_equals [OF sextet_bounds(1) [of a]]
      url_char_not_equals [OF sextet_bounds(3) [of a b]]
      url_char_not_equals [OF sextet_bounds(4) [of b]]
    by (simp add: eq_commute)
next
  case (4 a b c rest)
  then show ?case
    using url_char_not_equals [OF sextet_bounds(1) [of a]]
      url_char_not_equals [OF sextet_bounds(3) [of a b]]
      url_char_not_equals [OF sextet_bounds(5) [of b c]]
      url_char_not_equals [OF sextet_bounds(6) [of c]]
    by (simp add: eq_commute)
qed

lemma dropWhile_replicate_append: "dropWhile (\<lambda>x. x = c) (replicate k c @ xs) = dropWhile (\<lambda>x. x = c) xs"
  by (induction k) simp_all

lemma dropWhile_none: "c \<notin> set xs \<Longrightarrow> dropWhile (\<lambda>x. x = c) xs = xs"
  by (cases xs) auto

lemma strip_padding:
  assumes "CHR ''='' \<notin> set u"
  shows "strip_trailing_equals (u @ replicate k (CHR ''='')) = u"
proof -
  from assms have "CHR ''='' \<notin> set (rev u)" by simp
  then have "dropWhile (\<lambda>x. x = CHR ''='') (replicate k (CHR ''='') @ rev u) = rev u"
    by (simp add: dropWhile_replicate_append dropWhile_none)
  then show ?thesis by (simp add: strip_trailing_equals_def)
qed

lemma encoded_email:
  "strip_trailing_equals
     (replace_all (CHR ''/'') (CHR ''_'') (replace_all (CHR ''+'') (CHR ''-'') (base64 s))) =
   base64url_nopad s"
  by (simp only: replaced_base64 padding_def strip_padding [OF base64url_no_equals])


lemma sendEmail_email: "sendEmail_raw params = base64url_nopad (mime_message params)"
proof -
  have "sendEmail_raw params =
        strip_trailing_equals
          (replace_all (CHR ''/'') (CHR ''_'')
            (replace_all (CHR ''+'') (CHR ''-'') (base64 (mime_message params))))"
    by (cases "cc params"; cases "bcc params")
       (simp_all add: sendEmail_raw_def mime_message_def Let_def)
  then show ?thesis by (simp only: encoded_email)
qed


text \<open>
  Claim C7, as amended. For every validated input, \<open>sendEmail\<close> and \<open>createDraft\<close> hand the
  same raw message to the mail service: the header lines To, Subject,
  "Content-Type: text/plain; charset=utf-8" and "MIME-Version: 1.0", then Cc and Bcc when they
  are given and not empty, joined by CRLF, followed by a blank line and the body as it is;
  this text is encoded as base64url without padding, which is what replacing \<open>+\<close> by \<open>-\<close> and
  \<open>/\<close> by \<open>_\<close> and removing the trailing \<open>=\<close> from its base64 encoding gives.
\<close>

theorem raw_message_encoding:
  "sendEmail_raw params = base64url_nopad (mime_message params) \<and>
   createDraft_raw params = sendEmail_raw params \<and>
   sendEmail g params =
     (case messages_send g (base64url_nopad (mime_message params)) of
        Returns m \<Rightarrow> Returns m
      | Raises e \<Rightarrow> Raises (ErrorObj (''Failed to send email: '' @ error_message e))
      | Pending \<Rightarrow> Pending) \<and>
   createDraft g params =
     (case drafts_create g (base64url_nopad (mime_message params)) of
        Returns m \<Rightarrow> Returns m
      | Raises e \<Rightarrow> Raises (ErrorObj (''Failed to create draft: '' @ error_message e))
      | Pending \<Rightarrow> Pending) \<and>
   strip_trailing_equals
     (replace_all (CHR ''/'') (CHR ''_'') (replace_all (CHR ''+'') (CHR ''-'') (base64 text))) =
   base64url_nopad text"
proof -
  have d: "createDraft_raw params = sendEmail_raw params"
    by (simp only: createDraft_raw_def sendEmail_raw_def)
  have s: "sendEmail_raw params = base64url_nopad (mime_message params)"
    by (rule sendEmail_email)
  have 1: "sendEmail g params =
     (case messages_send g (base64url_nopad (mime_message params)) of
        Returns m \<Rightarrow> Returns m
      | Raises e \<Rightarrow> Raises (ErrorObj (''Failed to send email: '' @ error_message e))
      | Pending \<Rightarrow> Pending)"
    by (simp only: sendEmail_def s)
  have 2: "createDraft g params =
     (case drafts_create g (base64url_nopad (mime_message params)) of
        Returns m \<Rightarrow> Returns m
      | Raises e \<Rightarrow> Raises (ErrorObj (''Failed to create draft: '' @ error_message e))
      | Pending \<Rightarrow> Pending)"
    by (simp only: createDraft_def d s)
  show ?thesis
    by (intro conjI) (rule s, rule d, rule 1, rule 2, rule encoded_email)
qed

theorem raw_message_encoding_witness:
  "sendEmail_raw sample_mail =
     ''VG86IGFAYi5jbw0KU3ViamVjdDogSGkNCkNvbnRlbnQtVHlwZTogdGV4dC9wbGFpbjsgY2hhcnNldD11dGYtOA0KTUlNRS1WZXJzaW9uOiAxLjANCg0KSGVsbG8_'' \<and>
   createDraft_raw sample_mail = sendEmail_raw sample_mail"
proof -
  note t = raw_message_encoding [of sample_mail sample_gmail "[]"]
  have e: "base64url_nopad (mime_message sample_mail) =
     ''VG86IGFAYi5jbw0KU3ViamVjdDogSGkNCkNvbnRlbnQtVHlwZTogdGV4dC9wbGFpbjsgY2hhcnNldD11dGYtOA0KTUlNRS1WZXJzaW9uOiAxLjANCg0KSGVsbG8_''"
    by code_simp
  from t have 1: "sendEmail_raw sample_mail = base64url_nopad (mime_message sample_mail)"
    by (rule conjunct1)
  from t have 2: "createDraft_raw sample_mail = sendEmail_raw sample_mail"
    by blast
  from 1 e have "sendEmail_raw sample_mail =
     ''VG86IGFAYi5jbw0KU3ViamVjdDogSGkNCkNvbnRlbnQtVHlwZTogdGV4dC9wbGFpbjsgY2hhcnNldD11dGYtOA0KTUlNRS1WZXJzaW9uOiAxLjANCg0KSGVsbG8_''"
    by (rule trans)
  then show ?thesis using 2 by (rule conjI)
qed

text \<open>
  The claim as it was stated names only To, Subject, Cc and Bcc as header lines. For a mail
  to \<open>a@b.co\<close> with subject "Hi" and body "Hello?" the client's raw message is not the encoding
  of that text: it also holds the Content-Type and MIME-Version lines.
\<close>

theorem raw_message_counterexample:
  "sendEmail_raw sample_mail \<noteq> base64url_nopad (described_message sample_mail)"
  by code_simp

subsection \<open>The end of a calendar event\<close>

lemma digit_char_less_10:
  assumes "k < 10"
  shows "is_digit (digit_char k)" and "digit_value (digit_char k) = k"
proof -
  from assms have k: "k = 0 \<or> k = 1 \<or> k = 2 \<or> k = 3 \<or> k = 4 \<or> k = 5 \<or> k = 6 \<or> k = 7 \<or>
      k = 8 \<or> k = 9"
    by arith
  from k show "is_digit (digit_char k)"
    by (elim disjE) (simp_all add: digit_char_def is_digit_def)
  from k show "digit_value (digit_char k) = k"
    by (elim disjE) (simp_all add: digit_char_def digit_value_def)
qed

lemma two_digits:
  assumes "n < 100"
  shows "padStart2 (show_nat n) = [digit_char (n div 10), digit_char (n mod 10)]"
proof (cases "n < 10")
  case True
  then have "show_nat n = [digit_char n]" by (simp add: show_nat.simps)
  with True show ?thesis by (simp add: padStart2_def digit_char_def)
next
  case False
  with assms have d: "n div 10 < 10" by simp
  have "show_nat n = show_nat (n div 10) @ [digit_char (n mod 10)]"
    using False by (subst show_nat.simps) simp
  moreover have "show_nat (n div 10) = [digit_char (n div 10)]"
    using d by (subst show_nat.simps) simp
  ultimately show ?thesis by (simp add: padStart2_def)
qed

lemma digit_plain:
  assumes "is_digit c"
  shows "c \<noteq> CHR ''T''" and "c \<noteq> CHR ''Z''" and "c \<noteq> CHR '':''"
    and "find (starts_with (c # s)) white_space = None"
    and "\<not> (\<exists>t \<in> set line_terminators. starts_with (c # s) t)"
proof -
  from assms have c: "c = CHR ''0'' \<or> c = CHR ''1'' \<or> c = CHR ''2'' \<or> c = CHR ''3'' \<or> c = CHR ''4'' \<or>
      c = CHR ''5'' \<or> c = CHR ''6'' \<or> c = CHR ''7'' \<or> c = CHR ''8'' \<or> c = CHR ''9''"
    by (simp add: is_digit_def)
  from c show "c \<noteq> CHR ''T''" by (elim disjE) simp_all
  from c show "c \<noteq> CHR ''Z''" by (elim disjE) simp_all
  from c show "c \<noteq> CHR '':''" by (elim disjE) simp_all
  from c show "find (starts_with (c # s)) white_space = None"
    by (elim disjE) (simp_all add: white_space_def starts_with_def)
  from c show "\<not> (\<exists>t \<in> set line_terminators. starts_with (c # s) t)"
    by (elim disjE) (simp_all add: line_terminators_def starts_with_def)
qed

lemma colon_plain:
  "find (starts_with (CHR '':'' # s)) white_space = None"
  "\<not> (\<exists>t \<in> set line_terminators. starts_with (CHR '':'' # s) t)"
  by (simp_all add: white_space_def starts_with_def line_terminators_def)

lemma parseInt_two:
  "parseInt [a, b] = 10 * digit_value a + digit_value b"
  by (simp add: parseInt_def)
lemma date_plain:
  assumes "date_shaped d"
  shows "CHR ''T'' \<notin> set d" and "CHR ''Z'' \<notin> set d" and "length d = 10"
proof -
  from assms have l: "length d = 10" by (simp add: date_shaped_def)
  then obtain d0 d1 d2 d3 d4 d5 d6 d7 d8 d9 where d: "d = [d0, d1, d2, d3, d4, d5, d6, d7, d8, d9]"
    by (auto simp: eval_nat_numeral length_Suc_conv)
  from assms d have g: "is_digit d0" "is_digit d1" "is_digit d2" "is_digit d3" "d4 = CHR ''-''"
      "is_digit d5" "is_digit d6" "d7 = CHR ''-''" "is_digit d8" "is_digit d9"
    by (simp_all add: date_shaped_def)
  from g show "CHR ''T'' \<notin> set d"
    using digit_plain(1) [of d0] digit_plain(1) [of d1] digit_plain(1) [of d2]
      digit_plain(1) [of d3] digit_plain(1) [of d5] digit_plain(1) [of d6]
      digit_plain(1) [of d8] digit_plain(1) [of d9]
    by (auto simp: d)
  from g show "CHR ''Z'' \<notin> set d"
    using digit_plain(2) [of d0] digit_plain(2) [of d1] digit_plain(2) [of d2]
      digit_plain(2) [of d3] digit_plain(2) [of d5] digit_plain(2) [of d6]
      digit_plain(2) [of d8] digit_plain(2) [of d9]
    by (auto simp: d)
  show "length d = 10" by (rule l)
qed

lemma leading_space_digit:
  assumes "is_digit c"
  shows "leading_space (c # s) = ([], c # s)"
  by (simp add: leading_space_def digit_plain(4) [OF assms])

lemma leading_space_blank:
  assumes "is_digit c"
  shows "leading_space (CHR '' '' # c # s) = ([[CHR '' '']], c # s)"
proof -
  have "find (starts_with (CHR '' '' # c # s)) white_space = Some [CHR '' '']"
    by (simp add: white_space_def starts_with_def)
  then show ?thesis by (simp add: leading_space_def digit_plain(4) [OF assms])
qed

lemma clock_plain:
  assumes "is_digit a" "is_digit b" "is_digit c" "is_digit e"
  shows "\<not> has_line_terminator [a, b, CHR '':'', c, e]"
  using digit_plain(5) [OF assms(1)] digit_plain(5) [OF assms(2)] digit_plain(5) [OF assms(3)]
    digit_plain(5) [OF assms(4)] colon_plain(2)
  by (simp del: bex_simps)

lemma time24Match_clock:
  assumes "is_digit a" "is_digit b" "is_digit c" "is_digit e"
  shows "time24Match [a, b, CHR '':'', c, e] = Some (parseInt [a, b], parseInt [c, e])"
proof -
  have n: "\<not> is_digit (CHR '':'')" by (simp add: is_digit_def)
  from assms n have "leading_hours [a, b, CHR '':'', c, e] = Some (parseInt [a, b], [CHR '':'', c, e])"
    by (simp add: leading_hours_def)
  with assms show ?thesis by (simp add: time24Match_def)
qed

lemma dateMatch_clock:
  assumes "date_shaped d" "is_digit a" "is_digit b" "is_digit c" "is_digit e"
  shows "dateMatch (d @ CHR '' '' # [a, b, CHR '':'', c, e]) = Some (d, [a, b, CHR '':'', c, e])"
proof -
  from date_plain(3) [OF assms(1)]
  have t: "take 10 (d @ CHR '' '' # [a, b, CHR '':'', c, e]) = d"
    and r: "drop 10 (d @ CHR '' '' # [a, b, CHR '':'', c, e]) = CHR '' '' # [a, b, CHR '':'', c, e]"
    by simp_all
  show ?thesis
    unfolding dateMatch_def t r
    using assms(1) clock_plain [OF assms(2-5)] leading_space_blank [OF assms(2), of "[b, CHR '':'', c, e]"]
    by simp
qed

lemma parseDateTime_clock:
  assumes "date_shaped d" "is_digit a" "is_digit b" "is_digit c" "is_digit e"
    and "parseInt [a, b] = h" "parseInt [c, e] = m"
  shows "parseDateTime (d @ CHR '' '' # [a, b, CHR '':'', c, e]) tz =
           d @ ''T'' @ padStart2 (show_nat h) @ '':'' @ padStart2 (show_nat m) @ '':00''"
proof -
  have "CHR ''T'' \<notin> set (d @ CHR '' '' # [a, b, CHR '':'', c, e])"
    using date_plain(1) [OF assms(1)] digit_plain(1) [OF assms(2)] digit_plain(1) [OF assms(3)]
      digit_plain(1) [OF assms(4)] digit_plain(1) [OF assms(5)]
    by auto
  moreover have "CHR ''Z'' \<notin> set (d @ CHR '' '' # [a, b, CHR '':'', c, e])"
    using date_plain(2) [OF assms(1)] digit_plain(2) [OF assms(2)] digit_plain(2) [OF assms(3)]
      digit_plain(2) [OF assms(4)] digit_plain(2) [OF assms(5)]
    by auto
  ultimately show ?thesis
    unfolding parseDateTime_def
    by (simp only: dateMatch_clock [OF assms(1-5)] time24Match_clock [OF assms(2-5)] assms(6,7)
          if_False simp_thms option.case prod.case Let_def)
qed

lemma split_on_absent: "c \<notin> set s \<Longrightarrow> split_on c s = [s]"
  by (induction s) auto

lemma split_on_first: "c \<notin> set xs \<Longrightarrow> split_on c (xs @ c # ys) = xs # split_on c ys"
  by (induction xs) auto

lemma Number_two:
  assumes "is_digit a" "is_digit b"
  shows "Number [a, b] = Some (int (parseInt [a, b]))"
  using assms by (simp add: Number_def)

lemma computed_end_clock:
  assumes "CHR ''T'' \<notin> set d" "is_digit a" "is_digit b" "is_digit c" "is_digit e"
    and "0 \<le> int (parseInt [a, b]) * 60 + int (parseInt [c, e]) + dur"
    and "int (parseInt [a, b]) * 60 + int (parseInt [c, e]) + dur < 1440"
  shows "computed_end (d @ ''T'' @ [a, b] @ '':'' @ [c, e] @ '':00'') dur =
           EndTime (d @ ''T'' @
             padStart2 (show_nat (nat ((int (parseInt [a, b]) * 60 + int (parseInt [c, e]) + dur) div 60))) @
             '':'' @
             padStart2 (show_nat (nat ((int (parseInt [a, b]) * 60 + int (parseInt [c, e]) + dur) mod 60))) @
             '':00'')"
proof -
  let ?total = "int (parseInt [a, b]) * 60 + int (parseInt [c, e]) + dur"
  have r: "CHR ''T'' \<notin> set ([a, b] @ '':'' @ [c, e] @ '':00'')"
    using digit_plain(1) [OF assms(2)] digit_plain(1) [OF assms(3)] digit_plain(1) [OF assms(4)]
      digit_plain(1) [OF assms(5)]
    by auto
  have s1: "split_on (CHR ''T'') (d @ ''T'' @ [a, b] @ '':'' @ [c, e] @ '':00'') =
              [d, [a, b] @ '':'' @ [c, e] @ '':00'']"
    using split_on_first [OF assms(1), of "[a, b] @ '':'' @ [c, e] @ '':00''"] split_on_absent [OF r]
    by simp
  have s2: "split_on (CHR '':'') ([a, b] @ '':'' @ [c, e] @ '':00'') = [[a, b], [c, e], ''00'']"
    using digit_plain(3) [OF assms(2)] digit_plain(3) [OF assms(3)] digit_plain(3) [OF assms(4)]
      digit_plain(3) [OF assms(5)]
    by simp
  have q: "0 \<le> ?total div 60" "?total div 60 < 24" "0 \<le> ?total mod 60"
    using assms(6,7) by simp_all
  have j: "js_rem (?total div 60) 24 = ?total div 60" "js_rem ?total 60 = ?total mod 60"
    using q assms(6) by (simp_all add: js_rem_def)
  have i: "show_int (?total div 60) = show_nat (nat (?total div 60))"
    "show_int (?total mod 60) = show_nat (nat (?total mod 60))"
    using q by (simp_all add: show_int_def)
  show ?thesis
    by (simp only: computed_end_def s1 list.case,
        simp only: s2 list.case prod.case option.case Number_two [OF assms(2,3)]
          Number_two [OF assms(4,5)] Let_def j i)
qed

text \<open>
  Where the code is right: a 24-hour start "YYYY-MM-DD HH:MM" with a positive duration that
  ends before midnight. The start sent is that minute of that date, and the end is the same
  date at the minute of the day of the start plus the duration.
\<close>

lemma same_day_end:
  assumes "date_shaped d" and "h < 24" and "m < 60" and "0 < dur"
    and "int h * 60 + int m + dur < 1440"
  shows "createCalendarEvent_times
           \<lparr>start_time = d @ '' '' @ padStart2 (show_nat h) @ '':'' @ padStart2 (show_nat m),
            end_time = None, duration_minutes = Some dur, timezone = tz\<rparr> =
         (d @ ''T'' @ padStart2 (show_nat h) @ '':'' @ padStart2 (show_nat m) @ '':00'',
          EndTime (d @ ''T'' @
            padStart2 (show_nat (nat ((int h * 60 + int m + dur) div 60))) @ '':'' @
            padStart2 (show_nat (nat ((int h * 60 + int m + dur) mod 60))) @ '':00''))"
proof -
  define a b c e where "a = digit_char (h div 10)" and "b = digit_char (h mod 10)"
    and "c = digit_char (m div 10)" and "e = digit_char (m mod 10)"
  have hh: "padStart2 (show_nat h) = [a, b]" and mm: "padStart2 (show_nat m) = [c, e]"
    using assms(2,3) by (simp_all add: two_digits a_def b_def c_def e_def)
  have dg: "is_digit a" "is_digit b" "is_digit c" "is_digit e"
    using assms(2,3) by (simp_all add: a_def b_def c_def e_def digit_char_less_10(1))
  have "digit_value a = h div 10" "digit_value b = h mod 10"
    "digit_value c = m div 10" "digit_value e = m mod 10"
    using assms(2,3) by (simp_all add: a_def b_def c_def e_def digit_char_less_10(2))
  then have ph: "parseInt [a, b] = h" and pm: "parseInt [c, e] = m"
    by (simp_all add: parseInt_two)
  have st: "d @ '' '' @ padStart2 (show_nat h) @ '':'' @ padStart2 (show_nat m) =
            d @ CHR '' '' # [a, b, CHR '':'', c, e]"
    by (simp add: hh mm)
  have p: "parseDateTime (d @ CHR '' '' # [a, b, CHR '':'', c, e]) z =
           d @ ''T'' @ [a, b] @ '':'' @ [c, e] @ '':00''" for z
    using parseDateTime_clock [OF assms(1) dg ph pm, of z] by (simp only: hh mm)
  have z: "0 \<le> int (parseInt [a, b]) * 60 + int (parseInt [c, e]) + dur"
    using assms(4) by (simp add: ph pm)
  have u: "int (parseInt [a, b]) * 60 + int (parseInt [c, e]) + dur < 1440"
    using assms(5) by (simp add: ph pm)
  have ce: "computed_end (d @ ''T'' @ [a, b] @ '':'' @ [c, e] @ '':00'') dur =
           EndTime (d @ ''T'' @
             padStart2 (show_nat (nat ((int h * 60 + int m + dur) div 60))) @ '':'' @
             padStart2 (show_nat (nat ((int h * 60 + int m + dur) mod 60))) @ '':00'')"
    using computed_end_clock [OF date_plain(1) [OF assms(1)] dg z u] by (simp only: ph pm)
  have nz: "dur \<noteq> 0" using assms(4) by simp
  have "createCalendarEvent_times
           \<lparr>start_time = d @ CHR '' '' # [a, b, CHR '':'', c, e],
            end_time = None, duration_minutes = Some dur, timezone = tz\<rparr> =
         (d @ ''T'' @ [a, b] @ '':'' @ [c, e] @ '':00'',
          computed_end (d @ ''T'' @ [a, b] @ '':'' @ [c, e] @ '':00'') dur)"
    using nz by (simp add: createCalendarEvent_times_def Let_def p del: append.simps)
  with ce show ?thesis by (simp add: hh mm)
qed

text \<open>
  The example of the description: a start of "2026-01-30 14:00" with no end and no duration
  is validated with the default duration of 60 minutes, and the event ends at
  2026-01-30T15:00:00.
\<close>

lemma afternoon_event_end:
  "validated_times afternoon_event = Some (''2026-01-30T14:00:00'', EndTime ''2026-01-30T15:00:00'')"
  by code_simp

text \<open>
  Claim C2 at a start late in the day. A start of "2026-01-30 23:30" with the default
  duration should end at 00:30 on 31 January. The client takes the hour modulo 24 and keeps
  the date of the start, so the end it sends is 00:30 on 30 January, 23 hours before the
  start.
\<close>

theorem late_event_end:
  "validated_times late_event = Some (''2026-01-30T23:30:00'', EndTime ''2026-01-30T00:30:00'')"
  by code_simp


end
